theory Spec2Isabelle
  imports Main "HOL-Library.Word" "HOL-Library.Multiset"
begin

section \<open>Data model of libkbfs/block_ops_constrained.go\<close>

type_synonym byte = "8 word"
type_synonym bytes = "byte list"

text \<open>
  A Go \<^verbatim>\<open>error\<close> value is modelled as \<open>error option\<close>: \<open>None\<close> is \<^verbatim>\<open>nil\<close>.
  The constructors are the dynamic types the code distinguishes by type assertion
  (the four recoverable block-server errors and the over-quota error with its
  \<^verbatim>\<open>Usage\<close>, \<^verbatim>\<open>Limit\<close> and \<^verbatim>\<open>Throttled\<close> fields), the warning it reports, the two
  errors of a done context, the hash mismatch of \<^verbatim>\<open>kbfsblock.VerifyID\<close>, and any other
  error.
\<close>

datatype error =
    BServerErrorBlockArchived string
  | BServerErrorBlockDeleted string
  | BServerErrorBlockNonExistent string
  | BServerErrorMaxRefExceeded string
  | BServerErrorOverQuota string int int bool
  | OverQuotaWarning int int
  | ContextCanceled
  | ContextDeadlineExceeded
  | HashMismatchError
  | OtherError string

fun isRecoverableBlockError :: "error option \<Rightarrow> bool" where
  "isRecoverableBlockError (Some (BServerErrorBlockArchived m)) = True"
| "isRecoverableBlockError (Some (BServerErrorBlockDeleted m)) = True"
| "isRecoverableBlockError (Some (BServerErrorBlockNonExistent m)) = True"
| "isRecoverableBlockError (Some (BServerErrorMaxRefExceeded m)) = True"
| "isRecoverableBlockError e = False"

type_synonym BlockID = bytes
type_synonym tlfID = bytes
type_synonym CanonicalTlfName = string

text \<open>\<^verbatim>\<open>kbfsblock.Context\<close>, embedded in a \<^verbatim>\<open>BlockPointer\<close>. The reference nonce is
  eight bytes; \<^verbatim>\<open>kbfsblock.ZeroRefNonce\<close> is the all-zero nonce.\<close>

record BlockContext =
  Creator :: nat
  Writer :: nat
  RefNonce :: "64 word"

definition ZeroRefNonce :: "64 word" where
  "ZeroRefNonce = 0"

record BlockPointer =
  ID :: BlockID
  KeyGen :: int
  DataVer :: int
  Context :: BlockContext

record ReadyBlockData =
  buf :: bytes
  serverHalf :: bytes

text \<open>
  A \<^verbatim>\<open>Block\<close> is an interface value holding a pointer: its dynamic type and the
  address it points to. Two interface values are \<^verbatim>\<open>==\<close> exactly when both agree, which
  is equality of this datatype. The objects themselves live in a store.
\<close>

datatype Block = FileBlockPtr nat | DirBlockPtr nat | CommonBlockPtr nat

text \<open>
  The objects behind \<^verbatim>\<open>Block\<close> pointers: the fields of the embedded \<^verbatim>\<open>CommonBlock\<close>
  that the code reads or writes, and the contents.
\<close>

record BlockObj =
  IsInd :: bool
  cachedEncodedSize :: "32 word"
  Contents :: bytes

type_synonym store = "nat \<Rightarrow> BlockObj"

fun addr :: "Block \<Rightarrow> nat" where
  "addr (FileBlockPtr a) = a"
| "addr (DirBlockPtr a) = a"
| "addr (CommonBlockPtr a) = a"

text \<open>
  A \<^verbatim>\<open>blockState\<close> of the batch. The completion callback \<^verbatim>\<open>syncedCb\<close> is \<open>None\<close> when
  it is \<^verbatim>\<open>nil\<close> and otherwise \<open>Some r\<close>, \<open>r\<close> being the error the closure returns when
  it is called.
\<close>

record blockState =
  blockPtr :: BlockPointer
  block :: Block
  readyBlockData :: ReadyBlockData
  syncedCb :: "error option option"

record blockPutState =
  blockStates :: "blockState list"

subsection \<open>Collaborators\<close>

text \<open>
  The \<^verbatim>\<open>BlockServer\<close> interface. Each method answers with an error or \<open>None\<close>; the
  first argument says whether the context the call is issued under is already done, so
  that a server that honours cancellation can be told from one that does not.
\<close>

record BlockServer =
  bserv_Put :: "bool \<Rightarrow> tlfID \<Rightarrow> BlockID \<Rightarrow> BlockContext \<Rightarrow> bytes \<Rightarrow> bytes \<Rightarrow> error option"
  bserv_AddBlockReference :: "bool \<Rightarrow> tlfID \<Rightarrow> BlockID \<Rightarrow> BlockContext \<Rightarrow> error option"

record BlockCache =
  bcache_DeleteKnownPtr :: "tlfID \<Rightarrow> Block \<Rightarrow> error option"
  bcache_DeleteTransient :: "BlockPointer \<Rightarrow> tlfID \<Rightarrow> error option"

datatype bserv_call =
    PutCall tlfID BlockID BlockContext bytes bytes
  | AddBlockReferenceCall tlfID BlockID BlockContext

datatype bcache_call =
    DeleteKnownPtrCall tlfID Block
  | DeleteTransientCall BlockPointer tlfID

datatype ErrorModeType = ReadMode | WriteMode

record report =
  r_tlfName :: CanonicalTlfName
  r_public :: bool
  r_mode :: ErrorModeType
  r_err :: error

text \<open>
  Everything the code does to the outside is appended to a log: the calls sent to the
  block server, the errors given to the \<^verbatim>\<open>Reporter\<close>, the entries whose completion
  callback was called, the calls to the block cache, the warnings logged, and, for each
  run of \<^verbatim>\<open>doOneBlockPut\<close>, the entry together with the state of the group context it
  ran under.
\<close>

record world =
  bservCalls :: "bserv_call list"
  reports :: "report list"
  synced :: "blockState list"
  bcacheCalls :: "bcache_call list"
  warnings :: "string list"
  puts :: "(bool \<times> blockState) list"

definition world0 :: world where
  "world0 = \<lparr>bservCalls = [], reports = [], synced = [], bcacheCalls = [],
     warnings = [], puts = []\<rparr>"

section \<open>putBlockToServer and PutBlockCheckQuota\<close>

text \<open>\<^verbatim>\<open>tlfID.IsPublic()\<close> is not part of the excerpt; it is a parameter.\<close>

definition putBlockToServer ::
  "bool \<Rightarrow> BlockServer \<Rightarrow> tlfID \<Rightarrow> BlockPointer \<Rightarrow> ReadyBlockData \<Rightarrow> world
     \<Rightarrow> error option \<times> world" where
  "putBlockToServer ctxDone bserv tlf ptr rbd w =
     (if RefNonce (Context ptr) = ZeroRefNonce
      then (bserv_Put bserv ctxDone tlf (ID ptr) (Context ptr) (buf rbd) (serverHalf rbd),
            w\<lparr>bservCalls := bservCalls w @
                 [PutCall tlf (ID ptr) (Context ptr) (buf rbd) (serverHalf rbd)]\<rparr>)
      else (bserv_AddBlockReference bserv ctxDone tlf (ID ptr) (Context ptr),
            w\<lparr>bservCalls := bservCalls w @
                 [AddBlockReferenceCall tlf (ID ptr) (Context ptr)]\<rparr>))"

definition PutBlockCheckQuota ::
  "bool \<Rightarrow> BlockServer \<Rightarrow> (tlfID \<Rightarrow> bool) \<Rightarrow> tlfID \<Rightarrow> BlockPointer \<Rightarrow> ReadyBlockData
     \<Rightarrow> CanonicalTlfName \<Rightarrow> world \<Rightarrow> error option \<times> world" where
  "PutBlockCheckQuota ctxDone bserv IsPublic tlf ptr rbd tlfName w =
     (case putBlockToServer ctxDone bserv tlf ptr rbd w of
        (Some (BServerErrorOverQuota m usage limit throttled), w') \<Rightarrow>
          (if \<not> throttled
           then (None, w'\<lparr>reports := reports w' @
                   [\<lparr>r_tlfName = tlfName, r_public = IsPublic tlf, r_mode = WriteMode,
                     r_err = OverQuotaWarning usage limit\<rparr>]\<rparr>)
           else (Some (BServerErrorOverQuota m usage limit throttled), w'))
      | (err, w') \<Rightarrow> (err, w'))"

section \<open>BlockOpsConstrained: the bandwidth throttle\<close>

text \<open>
  A \<^verbatim>\<open>context.Context\<close> as an operation sees it: \<open>ctx_Value\<close> is \<^verbatim>\<open>ctx.Value\<close> (a
  \<^verbatim>\<open>nil\<close> interface is \<open>None\<close>), and \<open>ctx_Err ctx k\<close> is what \<^verbatim>\<open>ctx.Err()\<close> answers at
  the \<open>k\<close>-th check \<^verbatim>\<open>select { case <-ctx.Done(): ... default: }\<close> that the operation
  makes, \<open>None\<close> while the context is not done.
\<close>

record "context" =
  ctx_Value :: "nat \<Rightarrow> nat option"
  ctx_Err :: "nat \<Rightarrow> error option"

type_synonym RootMetadata = nat

record BlockOps =
  bops_Get :: "context \<Rightarrow> RootMetadata \<Rightarrow> BlockPointer \<Rightarrow> Block \<Rightarrow> error option"
  bops_Ready :: "context \<Rightarrow> RootMetadata \<Rightarrow> Block
     \<Rightarrow> BlockID \<times> int \<times> ReadyBlockData \<times> error option"
  bops_Put :: "context \<Rightarrow> RootMetadata \<Rightarrow> BlockPointer \<Rightarrow> ReadyBlockData \<Rightarrow> error option"
  bops_Delete :: "context \<Rightarrow> RootMetadata \<Rightarrow> BlockPointer list
     \<Rightarrow> (BlockID \<Rightarrow> int option) \<times> error option"
  bops_Archive :: "context \<Rightarrow> RootMetadata \<Rightarrow> BlockPointer list \<Rightarrow> error option"

text \<open>
  Go's \<^verbatim>\<open>int\<close> is taken as the 64-bit two's complement integer it is on the platforms
  the file system runs on: \<open>int64\<close> wraps a mathematical integer into that range.
  Multiplication wraps; the quotient \<^verbatim>\<open>/\<close> truncates towards zero and panics on a zero
  divisor. \<^verbatim>\<open>time.Second\<close> is a number of nanoseconds.
\<close>

definition int64 :: "int \<Rightarrow> int" where
  "int64 x = (x + 2 ^ 63) mod 2 ^ 64 - 2 ^ 63"

datatype 'a go = Returns 'a | Panics

definition go_mul :: "int \<Rightarrow> int \<Rightarrow> int" where
  "go_mul a b = int64 (a * b)"

definition go_quo :: "int \<Rightarrow> int \<Rightarrow> int go" where
  "go_quo a b =
     (if b = 0 then Panics else Returns (int64 (sgn a * sgn b * (\<bar>a\<bar> div \<bar>b\<bar>))))"

definition time_Second :: int where
  "time_Second = 1000000000"

record BlockOpsConstrained =
  IFCERFTBlockOps :: BlockOps
  bwKBps :: int

text \<open>
  \<^verbatim>\<open>delay\<close> returns its error together with the durations it has passed to
  \<^verbatim>\<open>time.Sleep\<close> (none when it returns before sleeping). The mutex it holds while it
  sleeps serialises concurrent callers and does not change what one call computes.
\<close>

definition delay :: "BlockOpsConstrained \<Rightarrow> context \<Rightarrow> int \<Rightarrow> (error option \<times> int list) go" where
  "delay b ctx sz =
     (if bwKBps b \<le> 0 then Returns (None, [])
      else case go_quo (go_mul sz time_Second) (go_mul (bwKBps b) 1024) of
             Panics \<Rightarrow> Panics
           | Returns d \<Rightarrow> Returns (ctx_Err ctx 0, [d]))"

text \<open>
  \<^verbatim>\<open>Put\<close> returns the error, the sleeps of \<^verbatim>\<open>delay\<close>, and whether the put was
  forwarded to the delegate.
\<close>

definition BlockOpsConstrained_Put ::
  "BlockOpsConstrained \<Rightarrow> context \<Rightarrow> RootMetadata \<Rightarrow> BlockPointer \<Rightarrow> ReadyBlockData
     \<Rightarrow> (error option \<times> int list \<times> bool) go" where
  "BlockOpsConstrained_Put b ctx md ptr rbd =
     (case delay b ctx (int (length (buf rbd))) of
        Panics \<Rightarrow> Panics
      | Returns (Some err, sl) \<Rightarrow> Returns (Some err, sl, False)
      | Returns (None, sl) \<Rightarrow>
          Returns (bops_Put (IFCERFTBlockOps b) ctx md ptr rbd, sl, True))"

section \<open>assembleBlock\<close>

text \<open>
  The collaborators of \<^verbatim>\<open>assembleBlock\<close>: the key getter, the codec, the pure crypto
  operations and \<^verbatim>\<open>kbfscrypto.UnmaskBlockCryptKey\<close>, none of which is in the excerpt,
  and the hash function behind \<^verbatim>\<open>kbfsblock.VerifyID\<close>. \<^verbatim>\<open>DecryptBlock\<close> answers with
  the object it has decrypted into the caller's block.
\<close>

type_synonym KeyMetadata = nat

record assembler =
  contentHash :: "bytes \<Rightarrow> BlockID"
  GetTLFCryptKeyForBlockDecryption :: "KeyMetadata \<Rightarrow> BlockPointer \<Rightarrow> error + bytes"
  UnmaskBlockCryptKey :: "bytes \<Rightarrow> bytes \<Rightarrow> bytes"
  codec_Decode :: "bytes \<Rightarrow> error + bytes"
  DecryptBlock :: "bytes \<Rightarrow> bytes \<Rightarrow> BlockObj \<Rightarrow> error + BlockObj"

text \<open>Modelled from the spec: \<^verbatim>\<open>kbfsblock.VerifyID\<close>, which is not in the excerpt. It
  verifies that the content hash of the buffer matches the expected block ID and fails
  with an integrity-violation error on mismatch.\<close>

definition VerifyID :: "(bytes \<Rightarrow> BlockID) \<Rightarrow> bytes \<Rightarrow> BlockID \<Rightarrow> error option" where
  "VerifyID h b i = (if h b = i then None else Some HashMismatchError)"

datatype asm_call =
    GetTLFCryptKeyCall KeyMetadata BlockPointer
  | DecodeCall bytes
  | DecryptBlockCall bytes bytes

text \<open>
  \<^verbatim>\<open>assembleBlock\<close> returns its error, the store after it, and the calls it has made to
  its collaborators. \<^verbatim>\<open>uint32(len(buf))\<close> keeps the low 32 bits of the length.
\<close>

definition assembleBlock ::
  "assembler \<Rightarrow> KeyMetadata \<Rightarrow> BlockPointer \<Rightarrow> Block \<Rightarrow> bytes \<Rightarrow> bytes
     \<Rightarrow> store \<Rightarrow> error option \<times> store \<times> asm_call list" where
  "assembleBlock A kmd ptr blk b blockServerHalf st =
     (case VerifyID (contentHash A) b (ID ptr) of
        Some err \<Rightarrow> (Some err, st, [])
      | None \<Rightarrow>
         (case GetTLFCryptKeyForBlockDecryption A kmd ptr of
            Inl err \<Rightarrow> (Some err, st, [GetTLFCryptKeyCall kmd ptr])
          | Inr tlfCryptKey \<Rightarrow>
             (let blockCryptKey = UnmaskBlockCryptKey A blockServerHalf tlfCryptKey in
              case codec_Decode A b of
                Inl err \<Rightarrow> (Some err, st, [GetTLFCryptKeyCall kmd ptr, DecodeCall b])
              | Inr encryptedBlock \<Rightarrow>
                 (case DecryptBlock A encryptedBlock blockCryptKey (st (addr blk)) of
                    Inl err \<Rightarrow>
                      (Some err, st,
                       [GetTLFCryptKeyCall kmd ptr, DecodeCall b,
                        DecryptBlockCall encryptedBlock blockCryptKey])
                  | Inr obj \<Rightarrow>
                      (None,
                       st(addr blk := obj\<lparr>cachedEncodedSize := of_nat (length b)\<rparr>),
                       [GetTLFCryptKeyCall kmd ptr, DecodeCall b,
                        DecryptBlockCall encryptedBlock blockCryptKey])))))"

section \<open>The stall harness of libkbfs/test_stallers.go\<close>

type_synonym stallableOp = string

definition StallableBlockGet :: stallableOp where "StallableBlockGet = ''Get''"
definition StallableBlockReady :: stallableOp where "StallableBlockReady = ''Ready''"
definition StallableBlockPut :: stallableOp where "StallableBlockPut = ''Put''"
definition StallableBlockDelete :: stallableOp where "StallableBlockDelete = ''Delete''"
definition StallableBlockArchive :: stallableOp where "StallableBlockArchive = ''Archive''"

definition StallableMDGetForHandle :: stallableOp where
  "StallableMDGetForHandle = ''GetForHandle''"
definition StallableMDGetUnmergedForHandle :: stallableOp where
  "StallableMDGetUnmergedForHandle = ''GetUnmergedForHandle''"
definition StallableMDGetForTLF :: stallableOp where
  "StallableMDGetForTLF = ''GetForTLF''"
definition StallableMDGetLatestHandleForTLF :: stallableOp where
  "StallableMDGetLatestHandleForTLF = ''GetLatestHandleForTLF''"
definition StallableMDGetUnmergedForTLF :: stallableOp where
  "StallableMDGetUnmergedForTLF = ''GetUnmergedForTLF''"
definition StallableMDGetRange :: stallableOp where
  "StallableMDGetRange = ''GetRange''"
definition StallableMDGetUnmergedRange :: stallableOp where
  "StallableMDGetUnmergedRange = ''GetUnmergedRange''"
definition StallableMDPut :: stallableOp where
  "StallableMDPut = ''Put''"
definition StallableMDAfterPut :: stallableOp where
  "StallableMDAfterPut = ''AfterPut''"
definition StallableMDPutUnmerged :: stallableOp where
  "StallableMDPutUnmerged = ''PutUnmerged''"

text \<open>
  A \<^verbatim>\<open>staller\<close> is a pair of channels, seen from the stalled operation:
  \<open>stalled_room\<close> is the number of sends on \<^verbatim>\<open>stalled\<close> that succeed without blocking
  (free buffer slots and waiting receivers), \<open>stalled_sent\<close> counts the values sent,
  and \<open>unstall_left\<close> is the number of values the test still delivers on \<^verbatim>\<open>unstall\<close>.
  A receive from \<^verbatim>\<open>unstall\<close> with none left never returns.
\<close>

record staller =
  stalled_room :: nat
  stalled_sent :: nat
  unstall_left :: nat

type_synonym stallMap = "nat option \<Rightarrow> staller option"

text \<open>\<^verbatim>\<open>maybeStall\<close> returns nothing; the model gives the stall map after it, or \<open>None\<close>
  when the blocking receive from \<^verbatim>\<open>unstall\<close> never returns.\<close>

definition maybeStall ::
  "context \<Rightarrow> stallableOp \<Rightarrow> stallableOp \<Rightarrow> nat \<Rightarrow> stallMap \<Rightarrow> stallMap option" where
  "maybeStall ctx opName stallOpName stallKey stallMap =
     (if opName \<noteq> stallOpName then Some stallMap
      else let v = ctx_Value ctx stallKey in
        case stallMap v of
          None \<Rightarrow> Some stallMap
        | Some chans \<Rightarrow>
           (let chans' =
                  (if 0 < stalled_room chans
                   then chans\<lparr>stalled_room := stalled_room chans - 1,
                              stalled_sent := stalled_sent chans + 1\<rparr>
                   else chans)
            in if unstall_left chans' = 0 then None
               else Some (stallMap(v \<mapsto> chans'\<lparr>unstall_left := unstall_left chans' - 1\<rparr>))))"

record stallingBlockOps =
  sb_stallOpName :: stallableOp
  sb_stallKey :: nat
  sb_stallMap :: stallMap
  internalDelegate :: BlockOps

definition stallingBlockOps_maybeStall ::
  "stallingBlockOps \<Rightarrow> context \<Rightarrow> stallableOp \<Rightarrow> stallMap option" where
  "stallingBlockOps_maybeStall f ctx opName =
     maybeStall ctx opName (sb_stallOpName f) (sb_stallKey f) (sb_stallMap f)"

text \<open>
  Each wrapped operation returns \<open>None\<close> when it never returns, and otherwise what it
  returns together with the stall map it leaves.
\<close>

definition stallingBlockOps_Get ::
  "stallingBlockOps \<Rightarrow> context \<Rightarrow> RootMetadata \<Rightarrow> BlockPointer \<Rightarrow> Block
     \<Rightarrow> (error option \<times> stallMap) option" where
  "stallingBlockOps_Get f ctx md ptr blk =
     (case stallingBlockOps_maybeStall f ctx StallableBlockGet of
        None \<Rightarrow> None
      | Some m \<Rightarrow> Some (bops_Get (internalDelegate f) ctx md ptr blk, m))"

definition stallingBlockOps_Ready ::
  "stallingBlockOps \<Rightarrow> context \<Rightarrow> RootMetadata \<Rightarrow> Block
     \<Rightarrow> ((BlockID \<times> int \<times> ReadyBlockData \<times> error option) \<times> stallMap) option" where
  "stallingBlockOps_Ready f ctx md blk =
     (case stallingBlockOps_maybeStall f ctx StallableBlockReady of
        None \<Rightarrow> None
      | Some m \<Rightarrow> Some (bops_Ready (internalDelegate f) ctx md blk, m))"

definition stallingBlockOps_Put ::
  "stallingBlockOps \<Rightarrow> context \<Rightarrow> RootMetadata \<Rightarrow> BlockPointer \<Rightarrow> ReadyBlockData
     \<Rightarrow> (error option \<times> stallMap) option" where
  "stallingBlockOps_Put f ctx md ptr rbd =
     (case stallingBlockOps_maybeStall f ctx StallableBlockPut of
        None \<Rightarrow> None
      | Some m \<Rightarrow>
         (case ctx_Err ctx 0 of
            Some cerr \<Rightarrow> Some (Some cerr, m)
          | None \<Rightarrow>
             (let err = bops_Put (internalDelegate f) ctx md ptr rbd in
              case ctx_Err ctx 1 of
                Some cerr \<Rightarrow> Some (Some cerr, m)
              | None \<Rightarrow> Some (err, m))))"

definition stallingBlockOps_Delete ::
  "stallingBlockOps \<Rightarrow> context \<Rightarrow> RootMetadata \<Rightarrow> BlockPointer list
     \<Rightarrow> (((BlockID \<Rightarrow> int option) \<times> error option) \<times> stallMap) option" where
  "stallingBlockOps_Delete f ctx md ptrs =
     (case stallingBlockOps_maybeStall f ctx StallableBlockDelete of
        None \<Rightarrow> None
      | Some m \<Rightarrow> Some (bops_Delete (internalDelegate f) ctx md ptrs, m))"

definition stallingBlockOps_Archive ::
  "stallingBlockOps \<Rightarrow> context \<Rightarrow> RootMetadata \<Rightarrow> BlockPointer list
     \<Rightarrow> (error option \<times> stallMap) option" where
  "stallingBlockOps_Archive f ctx md ptrs =
     (case stallingBlockOps_maybeStall f ctx StallableBlockArchive of
        None \<Rightarrow> None
      | Some m \<Rightarrow> Some (bops_Archive (internalDelegate f) ctx md ptrs, m))"

type_synonym TlfHandle = nat
type_synonym BareTlfHandle = nat
type_synonym BranchID = bytes
type_synonym MetadataRevision = int

text \<open>The \<^verbatim>\<open>MDOps\<close> interface; a \<^verbatim>\<open>*RootMetadata\<close> result is \<open>None\<close> when \<^verbatim>\<open>nil\<close>.\<close>

record MDOps =
  md_GetForHandle :: "context \<Rightarrow> TlfHandle \<Rightarrow> RootMetadata option \<times> error option"
  md_GetUnmergedForHandle :: "context \<Rightarrow> TlfHandle \<Rightarrow> RootMetadata option \<times> error option"
  md_GetForTLF :: "context \<Rightarrow> tlfID \<Rightarrow> RootMetadata option \<times> error option"
  md_GetLatestHandleForTLF :: "context \<Rightarrow> tlfID \<Rightarrow> BareTlfHandle \<times> error option"
  md_GetUnmergedForTLF :: "context \<Rightarrow> tlfID \<Rightarrow> BranchID
     \<Rightarrow> RootMetadata option \<times> error option"
  md_GetRange :: "context \<Rightarrow> tlfID \<Rightarrow> MetadataRevision \<Rightarrow> MetadataRevision
     \<Rightarrow> RootMetadata list \<times> error option"
  md_GetUnmergedRange :: "context \<Rightarrow> tlfID \<Rightarrow> BranchID \<Rightarrow> MetadataRevision
     \<Rightarrow> MetadataRevision \<Rightarrow> RootMetadata list \<times> error option"
  md_Put :: "context \<Rightarrow> RootMetadata \<Rightarrow> error option"
  md_PutUnmerged :: "context \<Rightarrow> RootMetadata \<Rightarrow> BranchID \<Rightarrow> error option"

record stallingMDOps =
  sm_stallOpName :: stallableOp
  sm_stallKey :: nat
  sm_stallMap :: stallMap
  sm_delegate :: MDOps

definition stallingMDOps_maybeStall ::
  "stallingMDOps \<Rightarrow> stallMap \<Rightarrow> context \<Rightarrow> stallableOp \<Rightarrow> stallMap option" where
  "stallingMDOps_maybeStall m sm ctx opName =
     maybeStall ctx opName (sm_stallOpName m) (sm_stallKey m) sm"

definition stallingMDOps_GetForHandle ::
  "stallingMDOps \<Rightarrow> context \<Rightarrow> TlfHandle
     \<Rightarrow> ((RootMetadata option \<times> error option) \<times> stallMap) option" where
  "stallingMDOps_GetForHandle m ctx handle =
     (case stallingMDOps_maybeStall m (sm_stallMap m) ctx StallableMDGetForHandle of
        None \<Rightarrow> None
      | Some sm \<Rightarrow> Some (md_GetForHandle (sm_delegate m) ctx handle, sm))"

definition stallingMDOps_GetUnmergedForHandle ::
  "stallingMDOps \<Rightarrow> context \<Rightarrow> TlfHandle
     \<Rightarrow> ((RootMetadata option \<times> error option) \<times> stallMap) option" where
  "stallingMDOps_GetUnmergedForHandle m ctx handle =
     (case stallingMDOps_maybeStall m (sm_stallMap m) ctx StallableMDGetUnmergedForHandle of
        None \<Rightarrow> None
      | Some sm \<Rightarrow> Some (md_GetUnmergedForHandle (sm_delegate m) ctx handle, sm))"

definition stallingMDOps_GetForTLF ::
  "stallingMDOps \<Rightarrow> context \<Rightarrow> tlfID
     \<Rightarrow> ((RootMetadata option \<times> error option) \<times> stallMap) option" where
  "stallingMDOps_GetForTLF m ctx tid =
     (case stallingMDOps_maybeStall m (sm_stallMap m) ctx StallableMDGetForTLF of
        None \<Rightarrow> None
      | Some sm \<Rightarrow> Some (md_GetForTLF (sm_delegate m) ctx tid, sm))"

definition stallingMDOps_GetLatestHandleForTLF ::
  "stallingMDOps \<Rightarrow> context \<Rightarrow> tlfID
     \<Rightarrow> ((BareTlfHandle \<times> error option) \<times> stallMap) option" where
  "stallingMDOps_GetLatestHandleForTLF m ctx tid =
     (case stallingMDOps_maybeStall m (sm_stallMap m) ctx StallableMDGetLatestHandleForTLF of
        None \<Rightarrow> None
      | Some sm \<Rightarrow> Some (md_GetLatestHandleForTLF (sm_delegate m) ctx tid, sm))"

definition stallingMDOps_GetUnmergedForTLF ::
  "stallingMDOps \<Rightarrow> context \<Rightarrow> tlfID \<Rightarrow> BranchID
     \<Rightarrow> ((RootMetadata option \<times> error option) \<times> stallMap) option" where
  "stallingMDOps_GetUnmergedForTLF m ctx tid bid =
     (case stallingMDOps_maybeStall m (sm_stallMap m) ctx StallableMDGetUnmergedForTLF of
        None \<Rightarrow> None
      | Some sm \<Rightarrow> Some (md_GetUnmergedForTLF (sm_delegate m) ctx tid bid, sm))"

definition stallingMDOps_GetRange ::
  "stallingMDOps \<Rightarrow> context \<Rightarrow> tlfID \<Rightarrow> MetadataRevision \<Rightarrow> MetadataRevision
     \<Rightarrow> ((RootMetadata list \<times> error option) \<times> stallMap) option" where
  "stallingMDOps_GetRange m ctx tid start stop =
     (case stallingMDOps_maybeStall m (sm_stallMap m) ctx StallableMDGetRange of
        None \<Rightarrow> None
      | Some sm \<Rightarrow> Some (md_GetRange (sm_delegate m) ctx tid start stop, sm))"

definition stallingMDOps_GetUnmergedRange ::
  "stallingMDOps \<Rightarrow> context \<Rightarrow> tlfID \<Rightarrow> BranchID \<Rightarrow> MetadataRevision \<Rightarrow> MetadataRevision
     \<Rightarrow> ((RootMetadata list \<times> error option) \<times> stallMap) option" where
  "stallingMDOps_GetUnmergedRange m ctx tid bid start stop =
     (case stallingMDOps_maybeStall m (sm_stallMap m) ctx StallableMDGetUnmergedRange of
        None \<Rightarrow> None
      | Some sm \<Rightarrow> Some (md_GetUnmergedRange (sm_delegate m) ctx tid bid start stop, sm))"

definition stallingMDOps_Put ::
  "stallingMDOps \<Rightarrow> context \<Rightarrow> RootMetadata \<Rightarrow> (error option \<times> stallMap) option" where
  "stallingMDOps_Put m ctx md =
     (case stallingMDOps_maybeStall m (sm_stallMap m) ctx StallableMDPut of
        None \<Rightarrow> None
      | Some sm \<Rightarrow>
         (case ctx_Err ctx 0 of
            Some cerr \<Rightarrow> Some (Some cerr, sm)
          | None \<Rightarrow>
             (let err = md_Put (sm_delegate m) ctx md in
              case stallingMDOps_maybeStall m sm ctx StallableMDAfterPut of
                None \<Rightarrow> None
              | Some sm' \<Rightarrow>
                 (case ctx_Err ctx 1 of
                    Some cerr \<Rightarrow> Some (Some cerr, sm')
                  | None \<Rightarrow> Some (err, sm')))))"

definition stallingMDOps_PutUnmerged ::
  "stallingMDOps \<Rightarrow> context \<Rightarrow> RootMetadata \<Rightarrow> BranchID
     \<Rightarrow> (error option \<times> stallMap) option" where
  "stallingMDOps_PutUnmerged m ctx md bid =
     (case stallingMDOps_maybeStall m (sm_stallMap m) ctx StallableMDPutUnmerged of
        None \<Rightarrow> None
      | Some sm \<Rightarrow>
         (case ctx_Err ctx 0 of
            Some cerr \<Rightarrow> Some (Some cerr, sm)
          | None \<Rightarrow>
             (let err = md_PutUnmerged (sm_delegate m) ctx md bid in
              case ctx_Err ctx 1 of
                Some cerr \<Rightarrow> Some (Some cerr, sm)
              | None \<Rightarrow> Some (err, sm))))"

section \<open>doOneBlockPut and doBlockPuts\<close>

text \<open>
  \<^verbatim>\<open>doOneBlockPut\<close> up to its channel send: the quota-checked put and, when that
  succeeds and the entry has a completion callback, the callback.
\<close>

definition doOneBlockPut_err ::
  "bool \<Rightarrow> BlockServer \<Rightarrow> (tlfID \<Rightarrow> bool) \<Rightarrow> tlfID \<Rightarrow> CanonicalTlfName \<Rightarrow> blockState
     \<Rightarrow> world \<Rightarrow> error option \<times> world" where
  "doOneBlockPut_err ctxDone bserv IsPublic tlf tlfName bs w =
     (case PutBlockCheckQuota ctxDone bserv IsPublic tlf (blockPtr bs) (readyBlockData bs)
             tlfName w of
        (None, w') \<Rightarrow>
          (case syncedCb bs of
             None \<Rightarrow> (None, w')
           | Some r \<Rightarrow> (r, w'\<lparr>synced := synced w' @ [bs]\<rparr>))
      | (Some err, w') \<Rightarrow> (Some err, w'))"

text \<open>What \<^verbatim>\<open>doOneBlockPut\<close> sends on \<^verbatim>\<open>blocksToRemoveChan\<close> for an entry and its
  error, if anything: the block of a recoverable error, when it is a \<^verbatim>\<open>*FileBlock\<close>
  that is not indirect.\<close>

definition fblockToRemove :: "store \<Rightarrow> blockState \<Rightarrow> error option \<Rightarrow> Block option" where
  "fblockToRemove st bs err =
     (if err \<noteq> None \<and> isRecoverableBlockError err
      then (case block bs of
              FileBlockPtr a \<Rightarrow> if \<not> IsInd (st a) then Some (FileBlockPtr a) else None
            | _ \<Rightarrow> None)
      else None)"

text \<open>
  \<^verbatim>\<open>doOneBlockPut\<close> as one sequential call, on a channel given by its buffered values
  and its capacity. The result is \<open>None\<close> when the send finds the channel full: nothing
  receives from it before all workers are done, so the call never returns.
\<close>

definition doOneBlockPut ::
  "bool \<Rightarrow> BlockServer \<Rightarrow> (tlfID \<Rightarrow> bool) \<Rightarrow> store \<Rightarrow> tlfID \<Rightarrow> CanonicalTlfName
     \<Rightarrow> blockState \<Rightarrow> Block list \<Rightarrow> nat \<Rightarrow> world
     \<Rightarrow> (error option \<times> Block list \<times> world) option" where
  "doOneBlockPut ctxDone bserv IsPublic st tlf tlfName bs ch cap w =
     (case doOneBlockPut_err ctxDone bserv IsPublic tlf tlfName bs w of
        (err, w') \<Rightarrow>
          (case fblockToRemove st bs err of
             None \<Rightarrow> Some (err, ch, w')
           | Some fblock \<Rightarrow>
               if length ch < cap then Some (err, ch @ [fblock], w') else None))"

text \<open>
  The parallel phase of \<^verbatim>\<open>doBlockPuts\<close>. What the \<^verbatim>\<open>worker\<close> closure captures is
  gathered in a record: the state of the caller's context, the collaborators, the
  folder, the store, and the capacity of \<^verbatim>\<open>blocksToRemoveChan\<close>.
\<close>

record closure =
  c_ctxDone :: bool
  c_bserv :: BlockServer
  c_IsPublic :: "tlfID \<Rightarrow> bool"
  c_store :: store
  c_tlfID :: tlfID
  c_tlfName :: CanonicalTlfName
  c_cap :: nat

text \<open>
  A worker goroutine is at the head of its loop, about to receive from \<^verbatim>\<open>blocks\<close>; or
  it has received an entry and is in \<^verbatim>\<open>doOneBlockPut\<close> before the remote call; or it
  is at the send on \<^verbatim>\<open>blocksToRemoveChan\<close> with the error it will return; or it is
  about to return that error to the error group; or it has returned.
\<close>

datatype worker =
    AtLoopHead
  | InPut blockState
  | Sending Block error
  | Failing error
  | Returned "error option"

text \<open>
  The shared state: the entries left in the channel \<^verbatim>\<open>blocks\<close> (the caller fills it
  to its capacity and closes it without ever blocking, so a receive yields the oldest
  entry left, or ends the loop when none is), the workers, the first error recorded by
  the error group (the group context is done as soon as one is recorded), the values
  buffered in \<^verbatim>\<open>blocksToRemoveChan\<close>, and the log.
\<close>

record pstate =
  blocks :: "blockState list"
  workers :: "worker list"
  groupErr :: "error option"
  blocksToRemoveChan :: "Block list"
  pworld :: world

definition groupCtxDone :: "closure \<Rightarrow> pstate \<Rightarrow> bool" where
  "groupCtxDone c s \<longleftrightarrow> c_ctxDone c \<or> groupErr s \<noteq> None"

text \<open>
  One step of worker \<open>i\<close>. The remote call of an entry, the report and the callback
  are one step, taken under the state the group context has at that moment: they act on
  the collaborators only. The send and the return of an error to the error group are
  steps of their own, for the channel and the group context are shared with the other
  workers.
\<close>

definition step :: "closure \<Rightarrow> nat \<Rightarrow> pstate \<Rightarrow> pstate" where
  "step c i s =
     (case workers s ! i of
        AtLoopHead \<Rightarrow>
          (case blocks s of
             [] \<Rightarrow> s\<lparr>workers := (workers s)[i := Returned None]\<rparr>
           | bs # rest \<Rightarrow> s\<lparr>blocks := rest, workers := (workers s)[i := InPut bs]\<rparr>)
      | InPut bs \<Rightarrow>
          (case doOneBlockPut_err (groupCtxDone c s) (c_bserv c) (c_IsPublic c) (c_tlfID c)
                  (c_tlfName c) bs (pworld s) of
             (err, w') \<Rightarrow>
               (let w'' = w'\<lparr>puts := puts w' @ [(groupCtxDone c s, bs)]\<rparr> in
                case err of
                  None \<Rightarrow> s\<lparr>workers := (workers s)[i := AtLoopHead], pworld := w''\<rparr>
                | Some e \<Rightarrow>
                   (case fblockToRemove (c_store c) bs err of
                      None \<Rightarrow> s\<lparr>workers := (workers s)[i := Failing e], pworld := w''\<rparr>
                    | Some fblock \<Rightarrow>
                        s\<lparr>workers := (workers s)[i := Sending fblock e], pworld := w''\<rparr>)))
      | Sending fblock e \<Rightarrow>
          s\<lparr>blocksToRemoveChan := blocksToRemoveChan s @ [fblock],
            workers := (workers s)[i := Failing e]\<rparr>
      | Failing e \<Rightarrow>
          s\<lparr>workers := (workers s)[i := Returned (Some e)],
            groupErr := (case groupErr s of None \<Rightarrow> Some e | Some e0 \<Rightarrow> Some e0)\<rparr>
      | Returned r \<Rightarrow> s)"

text \<open>Worker \<open>i\<close> can take a step unless it has returned, or is at the send and the
  channel is full.\<close>

definition runnable :: "closure \<Rightarrow> pstate \<Rightarrow> nat \<Rightarrow> bool" where
  "runnable c s i \<longleftrightarrow>
     i < length (workers s) \<and>
     (case workers s ! i of
        Sending fblock e \<Rightarrow> length (blocksToRemoveChan s) < c_cap c
      | Returned r \<Rightarrow> False
      | _ \<Rightarrow> True)"

text \<open>
  The states the workers can reach: a schedule names, step by step, the worker that
  moves; a choice that names no runnable worker is skipped.
\<close>

definition sched_step :: "closure \<Rightarrow> pstate \<Rightarrow> nat \<Rightarrow> pstate" where
  "sched_step c s k = (if runnable c s k then step c k s else s)"

definition exec :: "closure \<Rightarrow> nat list \<Rightarrow> pstate \<Rightarrow> pstate" where
  "exec c ks s = foldl (sched_step c) s ks"

fun wweight :: "worker \<Rightarrow> nat" where
  "wweight AtLoopHead = 1"
| "wweight (InPut bs) = 3"
| "wweight (Sending fblock e) = 2"
| "wweight (Failing e) = 1"
| "wweight (Returned r) = 0"

definition weight :: "pstate \<Rightarrow> nat" where
  "weight s = 3 * length (blocks s) + sum_list (map wweight (workers s))"

lemma sum_wweight_update:
  "i < length ws \<Longrightarrow>
   sum_list (map wweight (ws[i := x])) + wweight (ws ! i) = sum_list (map wweight ws) + wweight x"
proof (induction ws arbitrary: i)
  case Nil
  then show ?case by simp
next
  case (Cons w ws)
  then show ?case by (cases i) auto
qed

lemma step_weight: "runnable c s i \<Longrightarrow> weight (step c i s) < weight s"
proof -
  assume r: "runnable c s i"
  then have i: "i < length (workers s)"
    by (simp add: runnable_def)
  have upd: "sum_list (map wweight ((workers s)[i := x])) + wweight (workers s ! i)
      = sum_list (map wweight (workers s)) + wweight x" for x
    using i by (rule sum_wweight_update)
  have lt: "sum_list (map wweight ((workers s)[i := x])) < sum_list (map wweight (workers s))"
    if "wweight x < wweight (workers s ! i)" for x
    using upd [of x] that by linarith
  show ?thesis
  proof (cases "workers s ! i")
    case AtLoopHead
    then show ?thesis
      using upd [of "Returned None"] upd [of "InPut (hd (blocks s))"]
      by (cases "blocks s") (simp_all add: step_def weight_def)
  next
    case (InPut bs)
    then show ?thesis
      by (auto simp: step_def weight_def Let_def lt split: prod.splits option.splits)
  next
    case (Sending f e)
    then show ?thesis
      using upd [of "Failing e"] by (simp add: step_def weight_def)
  next
    case (Failing e)
    then show ?thesis
      using upd [of "Returned (Some e)"] by (simp add: step_def weight_def)
  next
    case (Returned r')
    then show ?thesis
      using r by (simp add: runnable_def)
  qed
qed

definition first_runnable :: "closure \<Rightarrow> pstate \<Rightarrow> nat option" where
  "first_runnable c s = find (runnable c s) [0..<length (workers s)]"

lemma first_runnable_Some: "first_runnable c s = Some j \<Longrightarrow> runnable c s j"
  by (auto simp: first_runnable_def find_Some_iff)

text \<open>
  The workers run until none can move: each step is taken by the worker the schedule
  names, or by the first runnable one when the schedule names none.
\<close>

function run :: "closure \<Rightarrow> nat list \<Rightarrow> pstate \<Rightarrow> pstate" where
  "run c sched s =
     (case first_runnable c s of
        None \<Rightarrow> s
      | Some j \<Rightarrow>
         (case sched of
            [] \<Rightarrow> run c [] (step c j s)
          | k # ks \<Rightarrow> run c ks (step c (if runnable c s k then k else j) s)))"
  by pat_completeness auto
termination
  by (relation "measure (\<lambda>(c, sched, s). weight s)")
    (auto simp: step_weight dest: first_runnable_Some)


declare run.simps [simp del]

text \<open>
  The sequential end of \<^verbatim>\<open>doBlockPuts\<close>: for each block received from
  \<^verbatim>\<open>blocksToRemoveChan\<close>, the pointers of the entries of the batch that hold this very
  block are appended to \<^verbatim>\<open>blocksToRemove\<close>, and the block is deleted from the cache by
  known pointer and by the last pointer of \<^verbatim>\<open>blocksToRemove\<close>; indexing an empty
  \<^verbatim>\<open>blocksToRemove\<close> there panics. A failed deletion is logged as a warning.
\<close>

definition logWarning :: "string \<Rightarrow> error option \<Rightarrow> world \<Rightarrow> world" where
  "logWarning msg err w =
     (case err of None \<Rightarrow> w | Some e \<Rightarrow> w\<lparr>warnings := warnings w @ [msg]\<rparr>)"

fun removeBlocks ::
  "BlockCache \<Rightarrow> tlfID \<Rightarrow> blockState list \<Rightarrow> Block list \<Rightarrow> BlockPointer list \<Rightarrow> world
     \<Rightarrow> (BlockPointer list \<times> world) go" where
  "removeBlocks bcache tlf bss [] blocksToRemove w = Returns (blocksToRemove, w)"
| "removeBlocks bcache tlf bss (fblock # rest) blocksToRemove w =
     (let blocksToRemove' =
            blocksToRemove @ map blockPtr (filter (\<lambda>bs. block bs = fblock) bss);
          w1 = logWarning ''Could not delete ptr for a block''
                 (bcache_DeleteKnownPtr bcache tlf fblock)
                 (w\<lparr>bcacheCalls := bcacheCalls w @ [DeleteKnownPtrCall tlf fblock]\<rparr>)
      in if blocksToRemove' = [] then Panics
         else
           (let w2 = logWarning ''Could not delete block''
                       (bcache_DeleteTransient bcache (last blocksToRemove') tlf)
                       (w1\<lparr>bcacheCalls := bcacheCalls w1 @
                              [DeleteTransientCall (last blocksToRemove') tlf]\<rparr>)
            in removeBlocks bcache tlf bss rest blocksToRemove' w2))"

text \<open>\<^verbatim>\<open>maxParallelBlockPuts\<close> is a constant that the excerpt does not define; it is a
  parameter.\<close>

definition numWorkers :: "nat \<Rightarrow> blockPutState \<Rightarrow> nat" where
  "numWorkers maxParallelBlockPuts bps =
     (if length (blockStates bps) > maxParallelBlockPuts then maxParallelBlockPuts
      else length (blockStates bps))"

definition worker_closure ::
  "bool \<Rightarrow> BlockServer \<Rightarrow> (tlfID \<Rightarrow> bool) \<Rightarrow> store \<Rightarrow> nat \<Rightarrow> tlfID \<Rightarrow> CanonicalTlfName
     \<Rightarrow> blockPutState \<Rightarrow> closure" where
  "worker_closure ctxDone bserv IsPublic st maxParallelBlockPuts tlf tlfName bps =
     \<lparr>c_ctxDone = ctxDone, c_bserv = bserv, c_IsPublic = IsPublic, c_store = st,
      c_tlfID = tlf, c_tlfName = tlfName, c_cap = numWorkers maxParallelBlockPuts bps\<rparr>"

definition started :: "nat \<Rightarrow> blockPutState \<Rightarrow> world \<Rightarrow> pstate" where
  "started maxParallelBlockPuts bps w =
     \<lparr>blocks = blockStates bps,
      workers = replicate (numWorkers maxParallelBlockPuts bps) AtLoopHead,
      groupErr = None, blocksToRemoveChan = [], pworld = w\<rparr>"

fun has_returned :: "worker \<Rightarrow> bool" where
  "has_returned (Returned r) = True"
| "has_returned w = False"

text \<open>
  \<^verbatim>\<open>doBlockPuts\<close> returns its two results and the log; it does not return when
  \<^verbatim>\<open>eg.Wait()\<close> waits for a worker that is stuck, and it can panic at the index.
\<close>

datatype outcome =
    Result "BlockPointer list" "error option" world
  | Deadlock
  | IndexPanic

definition doBlockPuts ::
  "bool \<Rightarrow> BlockServer \<Rightarrow> BlockCache \<Rightarrow> (tlfID \<Rightarrow> bool) \<Rightarrow> store \<Rightarrow> nat \<Rightarrow> tlfID
     \<Rightarrow> CanonicalTlfName \<Rightarrow> nat list \<Rightarrow> blockPutState \<Rightarrow> world \<Rightarrow> outcome" where
  "doBlockPuts ctxDone bserv bcache IsPublic st maxParallelBlockPuts tlf tlfName sched bps w =
     (let s = run (worker_closure ctxDone bserv IsPublic st maxParallelBlockPuts tlf tlfName bps)
                sched (started maxParallelBlockPuts bps w)
      in if \<not> list_all has_returned (workers s) then Deadlock
         else
           (let err = groupErr s in
            if isRecoverableBlockError err
            then (case removeBlocks bcache tlf (blockStates bps) (blocksToRemoveChan s) []
                         (pworld s) of
                    Panics \<Rightarrow> IndexPanic
                  | Returns (blocksToRemove, w') \<Rightarrow> Result blocksToRemove err w')
            else Result [] err (pworld s)))"


section \<open>Auxiliary definitions for the proofs\<close>

text \<open>
  The proofs about the parallel phase count the workers in each kind of state
  (\<open>collect\<close> sums a multiset over the workers), describe the outcome of one put as
  functions of the entry and of the state of the group context the put ran under, and
  gather what holds in every state the workers reach in the invariant \<open>puts_inv\<close>.
\<close>

definition collect :: "(worker \<Rightarrow> 'a multiset) \<Rightarrow> worker list \<Rightarrow> 'a multiset" where
  "collect f ws = \<Sum>\<^sub># (image_mset f (mset ws))"

fun w_input :: "worker \<Rightarrow> blockState multiset" where
  "w_input (InPut bs) = {#bs#}"
| "w_input w = {#}"

fun w_sending :: "worker \<Rightarrow> Block multiset" where
  "w_sending (Sending fblock e) = {#fblock#}"
| "w_sending w = {#}"

fun w_err :: "worker \<Rightarrow> error multiset" where
  "w_err (Sending fblock e) = {#e#}"
| "w_err (Failing e) = {#e#}"
| "w_err (Returned (Some e)) = {#e#}"
| "w_err w = {#}"

fun w_sent :: "worker \<Rightarrow> error multiset" where
  "w_sent (Failing e) = {#e#}"
| "w_sent (Returned (Some e)) = {#e#}"
| "w_sent w = {#}"

fun w_failed :: "worker \<Rightarrow> error multiset" where
  "w_failed (Returned (Some e)) = {#e#}"
| "w_failed w = {#}"

fun w_done :: "worker \<Rightarrow> unit multiset" where
  "w_done (Returned None) = {#()#}"
| "w_done w = {#}"

definition bserv_call_of :: "tlfID \<Rightarrow> blockState \<Rightarrow> bserv_call" where
  "bserv_call_of tlf bs =
     (if RefNonce (Context (blockPtr bs)) = ZeroRefNonce
      then PutCall tlf (ID (blockPtr bs)) (Context (blockPtr bs)) (buf (readyBlockData bs))
             (serverHalf (readyBlockData bs))
      else AddBlockReferenceCall tlf (ID (blockPtr bs)) (Context (blockPtr bs)))"

definition remote_err :: "closure \<Rightarrow> bool \<Rightarrow> blockState \<Rightarrow> error option" where
  "remote_err c d bs =
     fst (putBlockToServer d (c_bserv c) (c_tlfID c) (blockPtr bs) (readyBlockData bs) world0)"

definition quota_err :: "closure \<Rightarrow> bool \<Rightarrow> blockState \<Rightarrow> error option" where
  "quota_err c d bs =
     (case remote_err c d bs of
        Some (BServerErrorOverQuota m usage limit False) \<Rightarrow> None
      | err \<Rightarrow> err)"

definition put_err :: "closure \<Rightarrow> bool \<Rightarrow> blockState \<Rightarrow> error option" where
  "put_err c d bs =
     (case quota_err c d bs of
        None \<Rightarrow> (case syncedCb bs of None \<Rightarrow> None | Some r \<Rightarrow> r)
      | Some err \<Rightarrow> Some err)"

definition cb_called :: "closure \<Rightarrow> bool \<times> blockState \<Rightarrow> bool" where
  "cb_called c p \<longleftrightarrow> quota_err c (fst p) (snd p) = None \<and> syncedCb (snd p) \<noteq> None"

fun opt_list :: "'a option \<Rightarrow> 'a list" where
  "opt_list None = []"
| "opt_list (Some x) = [x]"

definition put_errs :: "closure \<Rightarrow> (bool \<times> blockState) list \<Rightarrow> error list" where
  "put_errs c ps = concat (map (\<lambda>p. opt_list (put_err c (fst p) (snd p))) ps)"

definition put_sends :: "closure \<Rightarrow> (bool \<times> blockState) list \<Rightarrow> Block list" where
  "put_sends c ps =
     concat (map (\<lambda>p. opt_list (fblockToRemove (c_store c) (snd p) (put_err c (fst p) (snd p)))) ps)"

definition puts_inv :: "closure \<Rightarrow> blockState list \<Rightarrow> pstate \<Rightarrow> bool" where
  "puts_inv c bss s \<longleftrightarrow>
     length (workers s) = c_cap c
     \<and> mset (map snd (puts (pworld s))) + collect w_input (workers s) + mset (blocks s) = mset bss
     \<and> collect w_err (workers s) = mset (put_errs c (puts (pworld s)))
     \<and> mset (blocksToRemoveChan s) + collect w_sending (workers s)
         = mset (put_sends c (puts (pworld s)))
     \<and> length (blocksToRemoveChan s) \<le> size (collect w_sent (workers s))
     \<and> (groupErr s = None \<longleftrightarrow> collect w_failed (workers s) = {#})
     \<and> set_option (groupErr s) \<subseteq> set_mset (collect w_failed (workers s))
     \<and> (collect w_done (workers s) = {#} \<or> blocks s = [])
     \<and> bservCalls (pworld s) = map (bserv_call_of (c_tlfID c)) (map snd (puts (pworld s)))
     \<and> synced (pworld s) = map snd (filter (cb_called c) (puts (pworld s)))
     \<and> bcacheCalls (pworld s) = []
     \<and> warnings (pworld s) = []"

text \<open>
  The state of the group context under which each put of the log was issued: it is the
  state of the caller's context, unless an earlier put of the log has failed.
\<close>

fun flags_ok :: "closure \<Rightarrow> bool \<Rightarrow> (bool \<times> blockState) list \<Rightarrow> bool" where
  "flags_ok c failed [] = True"
| "flags_ok c failed (p # ps) =
     ((fst p = c_ctxDone c \<or> failed)
      \<and> flags_ok c (failed \<or> put_err c (fst p) (snd p) \<noteq> None) ps)"

definition live_inv :: "blockState list \<Rightarrow> closure \<Rightarrow> pstate \<Rightarrow> bool" where
  "live_inv bss c s \<longleftrightarrow> puts_inv c bss s \<and> flags_ok c False (puts (pworld s))"

section \<open>Concrete inputs\<close>

definition ptr_new :: BlockPointer where
  "ptr_new = \<lparr>ID = [1], KeyGen = 1, DataVer = 1,
     Context = \<lparr>Creator = 1, Writer = 1, RefNonce = 0\<rparr>\<rparr>"

definition ptr_ref :: BlockPointer where
  "ptr_ref = \<lparr>ID = [2], KeyGen = 1, DataVer = 1,
     Context = \<lparr>Creator = 1, Writer = 1, RefNonce = 7\<rparr>\<rparr>"

definition rbd_small :: ReadyBlockData where
  "rbd_small = \<lparr>buf = [1, 2, 3], serverHalf = [9]\<rparr>"

text \<open>A block server that answers a put of block \<open>[1]\<close> with a soft over-quota error,
  a put of block \<open>[3]\<close> with a hard one, and accepts everything else.\<close>

definition bserv_quota :: BlockServer where
  "bserv_quota =
     \<lparr>bserv_Put = (\<lambda>d t i c b h.
        if i = [1] then Some (BServerErrorOverQuota ''over quota'' 11 10 False)
        else if i = [3] then Some (BServerErrorOverQuota ''over quota'' 20 10 True)
        else None),
      bserv_AddBlockReference = (\<lambda>d t i c. None)\<rparr>"

definition ctx_live :: "context" where
  "ctx_live = \<lparr>ctx_Value = (\<lambda>k. if k = 0 then Some 1 else None), ctx_Err = (\<lambda>k. None)\<rparr>"

text \<open>A context that is cancelled while the delegate's call is outstanding.\<close>

definition ctx_late :: "context" where
  "ctx_late = \<lparr>ctx_Value = (\<lambda>k. if k = 0 then Some 1 else None),
     ctx_Err = (\<lambda>k. if k = 0 then None else Some ContextCanceled)\<rparr>"

text \<open>A context that is cancelled before the call.\<close>

definition ctx_done :: "context" where
  "ctx_done = \<lparr>ctx_Value = (\<lambda>k. if k = 0 then Some 1 else None),
     ctx_Err = (\<lambda>k. Some ContextCanceled)\<rparr>"

definition bops_ok :: BlockOps where
  "bops_ok =
     \<lparr>bops_Get = (\<lambda>ctx md ptr blk. None),
      bops_Ready = (\<lambda>ctx md blk. ([1], 3, rbd_small, None)),
      bops_Put = (\<lambda>ctx md ptr rbd. None),
      bops_Delete = (\<lambda>ctx md ptrs. (Map.empty, None)),
      bops_Archive = (\<lambda>ctx md ptrs. None)\<rparr>"

definition mdops_ok :: MDOps where
  "mdops_ok =
     \<lparr>md_GetForHandle = (\<lambda>ctx h. (Some 1, None)),
      md_GetUnmergedForHandle = (\<lambda>ctx h. (None, None)),
      md_GetForTLF = (\<lambda>ctx t. (Some 1, None)),
      md_GetLatestHandleForTLF = (\<lambda>ctx t. (1, None)),
      md_GetUnmergedForTLF = (\<lambda>ctx t b. (None, None)),
      md_GetRange = (\<lambda>ctx t a b. ([1], None)),
      md_GetUnmergedRange = (\<lambda>ctx t bid a b. ([], None)),
      md_Put = (\<lambda>ctx md. None),
      md_PutUnmerged = (\<lambda>ctx md bid. None)\<rparr>"

definition stall_put :: stallMap where
  "stall_put = [Some 1 \<mapsto> \<lparr>stalled_room = 1, stalled_sent = 0, unstall_left = 2\<rparr>]"

definition sb_put :: stallingBlockOps where
  "sb_put = \<lparr>sb_stallOpName = StallableBlockPut, sb_stallKey = 0, sb_stallMap = stall_put,
     internalDelegate = bops_ok\<rparr>"

definition sm_put :: stallingMDOps where
  "sm_put = \<lparr>sm_stallOpName = StallableMDPut, sm_stallKey = 0, sm_stallMap = stall_put,
     sm_delegate = mdops_ok\<rparr>"

definition throttle_100 :: BlockOpsConstrained where
  "throttle_100 = \<lparr>IFCERFTBlockOps = bops_ok, bwKBps = 100\<rparr>"

definition throttle_off :: BlockOpsConstrained where
  "throttle_off = \<lparr>IFCERFTBlockOps = bops_ok, bwKBps = 0\<rparr>"

text \<open>A configured rate of \<open>2 ^ 54 + 1\<close> KBps.\<close>

definition throttle_huge :: BlockOpsConstrained where
  "throttle_huge = \<lparr>IFCERFTBlockOps = bops_ok, bwKBps = 18014398509481985\<rparr>"

definition store0 :: store where
  "store0 = (\<lambda>a. \<lparr>IsInd = False, cachedEncodedSize = 0, Contents = []\<rparr>)"

text \<open>Collaborators of \<^verbatim>\<open>assembleBlock\<close> that accept every buffer whose first byte is
  the block ID, and decrypt to the encrypted bytes themselves.\<close>

definition asm_ok :: assembler where
  "asm_ok =
     \<lparr>contentHash = take 1,
      GetTLFCryptKeyForBlockDecryption = (\<lambda>kmd ptr. Inr [7]),
      UnmaskBlockCryptKey = (\<lambda>h k. h @ k),
      codec_Decode = (\<lambda>b. Inr (take 4 b)),
      DecryptBlock = (\<lambda>enc k obj. Inr (obj\<lparr>Contents := enc\<rparr>))\<rparr>"

text \<open>A buffer of \<open>2 ^ 32\<close> bytes, the first of which is 1.\<close>

definition buf_4GiB :: bytes where
  "buf_4GiB = 1 # replicate 4294967295 0"

text \<open>A block server on which block \<open>[1]\<close> has been deleted, and that does not look at
  the context.\<close>

definition bserv_deleted :: BlockServer where
  "bserv_deleted =
     \<lparr>bserv_Put = (\<lambda>d t i c b h.
        if i = [1] then Some (BServerErrorBlockDeleted ''deleted'') else None),
      bserv_AddBlockReference = (\<lambda>d t i c. None)\<rparr>"

text \<open>The same server behind a connection that honours the context: a call under a
  done context fails with the cancellation error.\<close>

definition bserv_ctx :: BlockServer where
  "bserv_ctx =
     \<lparr>bserv_Put = (\<lambda>d t i c b h.
        if d then Some ContextCanceled
        else if i = [1] then Some (BServerErrorBlockDeleted ''deleted'') else None),
      bserv_AddBlockReference = (\<lambda>d t i c. if d then Some ContextCanceled else None)\<rparr>"

definition bcache_ok :: BlockCache where
  "bcache_ok = \<lparr>bcache_DeleteKnownPtr = (\<lambda>t b. None), bcache_DeleteTransient = (\<lambda>p t. None)\<rparr>"

definition bs_A :: blockState where
  "bs_A = \<lparr>blockPtr = ptr_new, block = FileBlockPtr 1, readyBlockData = rbd_small,
     syncedCb = Some None\<rparr>"

definition bs_B :: blockState where
  "bs_B = \<lparr>blockPtr = ptr_new\<lparr>ID := [2]\<rparr>, block = FileBlockPtr 2, readyBlockData = rbd_small,
     syncedCb = Some None\<rparr>"

definition bs_ref :: blockState where
  "bs_ref = \<lparr>blockPtr = ptr_ref, block = FileBlockPtr 4, readyBlockData = rbd_small,
     syncedCb = None\<rparr>"

text \<open>An entry for the deleted block \<open>[1]\<close> whose block is a directory block.\<close>

definition bs_dir :: blockState where
  "bs_dir = \<lparr>blockPtr = ptr_new, block = DirBlockPtr 3, readyBlockData = rbd_small,
     syncedCb = None\<rparr>"

text \<open>A second entry for the block of \<open>bs_A\<close>, stored under the block ID \<open>[2]\<close>.\<close>

definition bs_A_shared :: blockState where
  "bs_A_shared = \<lparr>blockPtr = ptr_new\<lparr>ID := [2]\<rparr>, block = FileBlockPtr 1,
     readyBlockData = rbd_small, syncedCb = None\<rparr>"

text \<open>The definitions that evaluate a run on these inputs.\<close>

lemmas eval_defs = doBlockPuts_def started_def worker_closure_def numWorkers_def
  first_runnable_def runnable_def step_def groupCtxDone_def doOneBlockPut_err_def
  PutBlockCheckQuota_def putBlockToServer_def fblockToRemove_def ZeroRefNonce_def
  logWarning_def world0_def store0_def ptr_new_def ptr_ref_def rbd_small_def
  bserv_deleted_def bserv_ctx_def bcache_ok_def bs_A_def bs_B_def bs_ref_def bs_dir_def
  bs_A_shared_def

section \<open>The single put\<close>

text \<open>
  C6. For every block pointer, \<^verbatim>\<open>putBlockToServer\<close> issues exactly one call to the
  block server and returns what that call answers: the full store call
  \<^verbatim>\<open>bserv.Put\<close>, carrying the payload buffer and the server key half, when the
  reference nonce of the pointer is the zero nonce, and otherwise the call
  \<^verbatim>\<open>bserv.AddBlockReference\<close>, which carries no payload. So the call issued is a
  store call if and only if the nonce is zero.
\<close>

theorem putBlockToServer_call:
  "(RefNonce (Context ptr) = ZeroRefNonce \<longrightarrow>
      putBlockToServer d bserv tlf ptr rbd w =
        (bserv_Put bserv d tlf (ID ptr) (Context ptr) (buf rbd) (serverHalf rbd),
         w\<lparr>bservCalls := bservCalls w @
              [PutCall tlf (ID ptr) (Context ptr) (buf rbd) (serverHalf rbd)]\<rparr>))
   \<and> (RefNonce (Context ptr) \<noteq> ZeroRefNonce \<longrightarrow>
      putBlockToServer d bserv tlf ptr rbd w =
        (bserv_AddBlockReference bserv d tlf (ID ptr) (Context ptr),
         w\<lparr>bservCalls := bservCalls w @
              [AddBlockReferenceCall tlf (ID ptr) (Context ptr)]\<rparr>))
   \<and> ((\<exists>t i c b h. bservCalls (snd (putBlockToServer d bserv tlf ptr rbd w)) =
          bservCalls w @ [PutCall t i c b h])
        \<longleftrightarrow> RefNonce (Context ptr) = ZeroRefNonce)"
  by (simp add: putBlockToServer_def)

theorem putBlockToServer_call_witness:
  "putBlockToServer False bserv_quota [] ptr_new rbd_small world0 =
     (Some (BServerErrorOverQuota ''over quota'' 11 10 False),
      world0\<lparr>bservCalls := [PutCall [] [1] (Context ptr_new) [1, 2, 3] [9]]\<rparr>)
   \<and> putBlockToServer False bserv_quota [] ptr_ref rbd_small world0 =
     (None, world0\<lparr>bservCalls := [AddBlockReferenceCall [] [2] (Context ptr_ref)]\<rparr>)"
  using putBlockToServer_call [of ptr_new False bserv_quota "[]" rbd_small world0]
    putBlockToServer_call [of ptr_ref False bserv_quota "[]" rbd_small world0]
  by (simp add: ptr_new_def ptr_ref_def rbd_small_def bserv_quota_def world0_def
      ZeroRefNonce_def)

text \<open>
  C4. When the remote call of a put fails with an over-quota error that is not
  throttled, \<^verbatim>\<open>PutBlockCheckQuota\<close> gives an \<^verbatim>\<open>OverQuotaWarning\<close> with the usage and
  the limit of the error to the reporter, in write mode, and returns \<^verbatim>\<open>nil\<close>; when the
  over-quota error is throttled, it reports nothing and returns the error unchanged,
  and \<^verbatim>\<open>doOneBlockPut\<close> returns it as the error of the entry.
\<close>

theorem PutBlockCheckQuota_quota:
  "(fst (putBlockToServer d bserv tlf ptr rbd w) = Some (BServerErrorOverQuota m usage limit False) \<longrightarrow>
      fst (PutBlockCheckQuota d bserv IsPublic tlf ptr rbd tlfName w) = None
      \<and> snd (PutBlockCheckQuota d bserv IsPublic tlf ptr rbd tlfName w) =
          (snd (putBlockToServer d bserv tlf ptr rbd w))
            \<lparr>reports := reports w @
               [\<lparr>r_tlfName = tlfName, r_public = IsPublic tlf, r_mode = WriteMode,
                 r_err = OverQuotaWarning usage limit\<rparr>]\<rparr>)
   \<and> (fst (putBlockToServer d bserv tlf ptr rbd w) = Some (BServerErrorOverQuota m usage limit True) \<longrightarrow>
      PutBlockCheckQuota d bserv IsPublic tlf ptr rbd tlfName w =
        putBlockToServer d bserv tlf ptr rbd w
      \<and> (ptr = blockPtr bs \<and> rbd = readyBlockData bs \<longrightarrow>
          fst (doOneBlockPut_err d bserv IsPublic tlf tlfName bs w)
            = Some (BServerErrorOverQuota m usage limit True)))"
proof -
  obtain e w' where p: "putBlockToServer d bserv tlf ptr rbd w = (e, w')"
    by (cases "putBlockToServer d bserv tlf ptr rbd w")
  have r: "reports w' = reports w"
    using p by (auto simp: putBlockToServer_def split: if_splits)
  have soft: "PutBlockCheckQuota d bserv IsPublic tlf ptr rbd tlfName w =
      (None, w'\<lparr>reports := reports w @
         [\<lparr>r_tlfName = tlfName, r_public = IsPublic tlf, r_mode = WriteMode,
           r_err = OverQuotaWarning usage limit\<rparr>]\<rparr>)"
    if "e = Some (BServerErrorOverQuota m usage limit False)"
    using p r that by (simp add: PutBlockCheckQuota_def)
  have hard: "PutBlockCheckQuota d bserv IsPublic tlf ptr rbd tlfName w = (e, w')"
    if "e = Some (BServerErrorOverQuota m usage limit True)"
    using p that by (simp add: PutBlockCheckQuota_def)
  have entry: "fst (doOneBlockPut_err d bserv IsPublic tlf tlfName bs w) = e"
    if "e = Some (BServerErrorOverQuota m usage limit True)" "ptr = blockPtr bs"
      "rbd = readyBlockData bs"
    using hard that by (simp add: doOneBlockPut_err_def)
  from soft hard entry show ?thesis
    by (simp add: p)
qed

theorem PutBlockCheckQuota_quota_witness:
  "PutBlockCheckQuota False bserv_quota (\<lambda>t. False) [] ptr_new rbd_small ''alice'' world0 =
     (None,
      world0\<lparr>bservCalls := [PutCall [] [1] (Context ptr_new) [1, 2, 3] [9]],
        reports := [\<lparr>r_tlfName = ''alice'', r_public = False, r_mode = WriteMode,
                     r_err = OverQuotaWarning 11 10\<rparr>]\<rparr>)
   \<and> PutBlockCheckQuota False bserv_quota (\<lambda>t. False) [] (ptr_new\<lparr>ID := [3]\<rparr>) rbd_small
       ''alice'' world0 =
     (Some (BServerErrorOverQuota ''over quota'' 20 10 True),
      world0\<lparr>bservCalls := [PutCall [] [3] (Context ptr_new) [1, 2, 3] [9]]\<rparr>)"
  using PutBlockCheckQuota_quota [where d = False and bserv = bserv_quota and tlf = "[]"
      and ptr = ptr_new and rbd = rbd_small and w = world0 and m = "''over quota''"
      and usage = 11 and limit = 10 and IsPublic = "\<lambda>t. False" and tlfName = "''alice''"
      and bs = bs_A]
    PutBlockCheckQuota_quota [where d = False and bserv = bserv_quota and tlf = "[]"
      and ptr = "ptr_new\<lparr>ID := [3]\<rparr>" and rbd = rbd_small and w = world0
      and m = "''over quota''" and usage = 20 and limit = 10 and IsPublic = "\<lambda>t. False"
      and tlfName = "''alice''" and bs = bs_A]
  by (simp add: putBlockToServer_def ptr_new_def rbd_small_def bserv_quota_def world0_def
      ZeroRefNonce_def prod_eq_iff)

section \<open>The throttle\<close>

lemma int64_id: "- (2 ^ 63) \<le> x \<Longrightarrow> x < 2 ^ 63 \<Longrightarrow> int64 x = x"
  by (simp add: int64_def)

lemma go_quo_exact:
  assumes "0 \<le> a" "a < 2 ^ 63" "0 < b"
  shows "go_quo a b = Returns (a div b)"
proof -
  have q: "sgn a * sgn b * (\<bar>a\<bar> div \<bar>b\<bar>) = a div b"
    using assms by (cases "a = 0") (simp_all add: sgn_if)
  have "0 \<le> a div b" using assms by (simp add: pos_imp_zdiv_nonneg_iff)
  moreover have "a div b \<le> a" using zdiv_mono2 [of a 1 b] assms by simp
  ultimately have "int64 (a div b) = a div b"
    using assms by (intro int64_id) auto
  then have "int64 (sgn a * sgn b * (\<bar>a\<bar> div \<bar>b\<bar>)) = a div b"
    by (simp only: q)
  with assms show ?thesis by (simp only: go_quo_def) simp
qed

text \<open>
  C7, amended. For every configured rate \<open>R > 0\<close> KBps and every payload of \<open>S\<close> bytes
  such that neither \<open>S * 1_second\<close> nor \<open>R * 1024\<close> exceeds the range of a 64-bit
  \<^verbatim>\<open>int\<close>, the delay that \<^verbatim>\<open>delay\<close> sleeps for is exactly the integer quotient
  \<open>S * 1_second div (R * 1024)\<close>; \<^verbatim>\<open>Put\<close> sleeps for this delay, computed from the length
  of the payload, and then forwards the put, unless the context is done by then, in
  which case it returns the error of the context. For every non-positive rate,
  \<^verbatim>\<open>delay\<close> does not sleep at all and \<^verbatim>\<open>Put\<close> forwards the put at once, whatever the
  context.
\<close>

theorem delay_exact:
  "(0 < bwKBps b \<and> bwKBps b * 1024 < 2 ^ 63 \<and> 0 \<le> sz \<and> sz * time_Second < 2 ^ 63 \<longrightarrow>
      delay b ctx sz = Returns (ctx_Err ctx 0, [sz * time_Second div (bwKBps b * 1024)]))
   \<and> (0 < bwKBps b \<and> bwKBps b * 1024 < 2 ^ 63
        \<and> int (length (buf rbd)) * time_Second < 2 ^ 63 \<longrightarrow>
      BlockOpsConstrained_Put b ctx md ptr rbd =
        Returns (case ctx_Err ctx 0 of
                   None \<Rightarrow> (bops_Put (IFCERFTBlockOps b) ctx md ptr rbd,
                     [int (length (buf rbd)) * time_Second div (bwKBps b * 1024)], True)
                 | Some err \<Rightarrow> (Some err,
                     [int (length (buf rbd)) * time_Second div (bwKBps b * 1024)], False)))
   \<and> (bwKBps b \<le> 0 \<longrightarrow>
      delay b ctx sz = Returns (None, [])
      \<and> BlockOpsConstrained_Put b ctx md ptr rbd =
          Returns (bops_Put (IFCERFTBlockOps b) ctx md ptr rbd, [], True))"
proof -
  have d: "delay b ctx n = Returns (ctx_Err ctx 0, [n * time_Second div (bwKBps b * 1024)])"
    if h: "0 < bwKBps b" "bwKBps b * 1024 < 2 ^ 63" "0 \<le> n" "n * time_Second < 2 ^ 63" for n
  proof -
    have a: "go_mul n time_Second = n * time_Second"
      using h by (auto simp: go_mul_def time_Second_def intro!: int64_id)
    have b: "go_mul (bwKBps b) 1024 = bwKBps b * 1024"
      using h by (auto simp: go_mul_def intro!: int64_id)
    have "go_quo (n * time_Second) (bwKBps b * 1024)
        = Returns (n * time_Second div (bwKBps b * 1024))"
      using h by (intro go_quo_exact) (auto simp: time_Second_def)
    with a b h show ?thesis by (simp add: delay_def)
  qed
  have 1: "0 < bwKBps b \<and> bwKBps b * 1024 < 2 ^ 63 \<and> 0 \<le> sz \<and> sz * time_Second < 2 ^ 63 \<longrightarrow>
      delay b ctx sz = Returns (ctx_Err ctx 0, [sz * time_Second div (bwKBps b * 1024)])"
    using d by blast
  have 2: "0 < bwKBps b \<and> bwKBps b * 1024 < 2 ^ 63
        \<and> int (length (buf rbd)) * time_Second < 2 ^ 63 \<longrightarrow>
      BlockOpsConstrained_Put b ctx md ptr rbd =
        Returns (case ctx_Err ctx 0 of
                   None \<Rightarrow> (bops_Put (IFCERFTBlockOps b) ctx md ptr rbd,
                     [int (length (buf rbd)) * time_Second div (bwKBps b * 1024)], True)
                 | Some err \<Rightarrow> (Some err,
                     [int (length (buf rbd)) * time_Second div (bwKBps b * 1024)], False))"
    using d [of "int (length (buf rbd))"]
    by (simp add: BlockOpsConstrained_Put_def split: option.splits)
  have 3: "bwKBps b \<le> 0 \<longrightarrow>
      delay b ctx sz = Returns (None, [])
      \<and> BlockOpsConstrained_Put b ctx md ptr rbd =
          Returns (bops_Put (IFCERFTBlockOps b) ctx md ptr rbd, [], True)"
    by (simp add: BlockOpsConstrained_Put_def delay_def)
  from 1 2 3 show ?thesis by blast
qed

theorem delay_exact_witness:
  "delay throttle_100 ctx_live 524288 = Returns (None, [5120000000])
   \<and> BlockOpsConstrained_Put throttle_100 ctx_live 0 ptr_new rbd_small
       = Returns (None, [29296], True)
   \<and> BlockOpsConstrained_Put throttle_off ctx_late 0 ptr_new rbd_small = Returns (None, [], True)"
  using delay_exact [where b = throttle_100 and sz = 524288 and ctx = ctx_live and md = 0
      and ptr = ptr_new and rbd = rbd_small]
    delay_exact [where b = throttle_off and sz = 524288 and ctx = ctx_late and md = 0
      and ptr = ptr_new and rbd = rbd_small]
  by (simp add: throttle_100_def throttle_off_def ctx_live_def time_Second_def bops_ok_def
      rbd_small_def)

text \<open>
  The claim as stated, for every rate and every payload, fails where the products
  wrap around: at a rate of \<open>2 ^ 54 + 1\<close> KBps, \<open>R * 1024\<close> wraps to 1024, and a put of
  1024 bytes sleeps for a full second, while the exact quotient is zero.
\<close>

theorem delay_exact_counterexample:
  "delay throttle_huge ctx_live 1024 = Returns (None, [1000000000])
   \<and> 1024 * time_Second div (bwKBps throttle_huge * 1024) = 0"
  by (simp add: delay_def throttle_huge_def ctx_live_def time_Second_def go_mul_def go_quo_def
      int64_def)

section \<open>Assembling a block\<close>

text \<open>
  C8, amended. For every buffer and pointer, \<^verbatim>\<open>assembleBlock\<close> fails with the
  integrity-violation error, having fetched no key and decoded and decrypted nothing,
  and leaves the store as it was, whenever the content hash of the buffer is not the
  block ID of the pointer. Whenever it succeeds, the encoded size of the block has been
  set to the low 32 bits of the length of the buffer, which is the length itself for a
  buffer shorter than \<open>2 ^ 32\<close> bytes.
\<close>

theorem assembleBlock_checks:
  "(contentHash A b \<noteq> ID ptr \<longrightarrow>
      assembleBlock A kmd ptr blk b half st = (Some HashMismatchError, st, []))
   \<and> (fst (assembleBlock A kmd ptr blk b half st) = None \<longrightarrow>
      unat (cachedEncodedSize (fst (snd (assembleBlock A kmd ptr blk b half st)) (addr blk)))
        = length b mod 2 ^ 32
      \<and> (length b < 2 ^ 32 \<longrightarrow>
          unat (cachedEncodedSize (fst (snd (assembleBlock A kmd ptr blk b half st)) (addr blk)))
            = length b))"
  by (auto simp: assembleBlock_def VerifyID_def Let_def unat_of_nat
      split: option.splits sum.splits)

theorem assembleBlock_checks_witness:
  "assembleBlock asm_ok 0 ptr_new (FileBlockPtr 5) [2, 2, 3] [9] store0 =
     (Some HashMismatchError, store0, [])
   \<and> fst (assembleBlock asm_ok 0 ptr_new (FileBlockPtr 5) [1, 2, 3] [9] store0) = None
   \<and> unat (cachedEncodedSize
        (fst (snd (assembleBlock asm_ok 0 ptr_new (FileBlockPtr 5) [1, 2, 3] [9] store0)) 5)) = 3"
proof -
  have ok: "fst (assembleBlock asm_ok 0 ptr_new (FileBlockPtr 5) [1, 2, 3] [9] store0) = None"
    by (simp add: assembleBlock_def VerifyID_def asm_ok_def ptr_new_def)
  show ?thesis
    using ok assembleBlock_checks [of asm_ok "[2, 2, 3]" ptr_new 0 "FileBlockPtr 5" "[9]" store0]
      assembleBlock_checks [of asm_ok "[1, 2, 3]" ptr_new 0 "FileBlockPtr 5" "[9]" store0]
    by (simp add: asm_ok_def ptr_new_def)
qed

text \<open>
  The claim as stated, for every buffer, fails for a buffer of \<open>2 ^ 32\<close> bytes:
  \<^verbatim>\<open>uint32(len(buf))\<close> is zero there.
\<close>

theorem assembleBlock_checks_counterexample:
  "fst (assembleBlock asm_ok 0 ptr_new (FileBlockPtr 5) buf_4GiB [9] store0) = None
   \<and> unat (cachedEncodedSize
        (fst (snd (assembleBlock asm_ok 0 ptr_new (FileBlockPtr 5) buf_4GiB [9] store0)) 5)) = 0
   \<and> length buf_4GiB = 4294967296"
  by (simp add: assembleBlock_def VerifyID_def asm_ok_def ptr_new_def buf_4GiB_def)

section \<open>The stall harness\<close>

lemma sb_Get_ret:
  "stallingBlockOps_Get f ctx md ptr blk =
     map_option (Pair (bops_Get (internalDelegate f) ctx md ptr blk))
       (stallingBlockOps_maybeStall f ctx StallableBlockGet)"
  by (simp add: stallingBlockOps_Get_def split: option.splits)

lemma sb_Ready_ret:
  "stallingBlockOps_Ready f ctx md blk =
     map_option (Pair (bops_Ready (internalDelegate f) ctx md blk))
       (stallingBlockOps_maybeStall f ctx StallableBlockReady)"
  by (simp add: stallingBlockOps_Ready_def split: option.splits)

lemma sb_Delete_ret:
  "stallingBlockOps_Delete f ctx md ptrs =
     map_option (Pair (bops_Delete (internalDelegate f) ctx md ptrs))
       (stallingBlockOps_maybeStall f ctx StallableBlockDelete)"
  by (simp add: stallingBlockOps_Delete_def split: option.splits)

lemma sb_Archive_ret:
  "stallingBlockOps_Archive f ctx md ptrs =
     map_option (Pair (bops_Archive (internalDelegate f) ctx md ptrs))
       (stallingBlockOps_maybeStall f ctx StallableBlockArchive)"
  by (simp add: stallingBlockOps_Archive_def split: option.splits)

lemma sm_GetForHandle_ret:
  "stallingMDOps_GetForHandle m ctx handle =
     map_option (Pair (md_GetForHandle (sm_delegate m) ctx handle))
       (stallingMDOps_maybeStall m (sm_stallMap m) ctx StallableMDGetForHandle)"
  by (simp add: stallingMDOps_GetForHandle_def split: option.splits)

lemma sm_GetUnmergedForHandle_ret:
  "stallingMDOps_GetUnmergedForHandle m ctx handle =
     map_option (Pair (md_GetUnmergedForHandle (sm_delegate m) ctx handle))
       (stallingMDOps_maybeStall m (sm_stallMap m) ctx StallableMDGetUnmergedForHandle)"
  by (simp add: stallingMDOps_GetUnmergedForHandle_def split: option.splits)

lemma sm_GetForTLF_ret:
  "stallingMDOps_GetForTLF m ctx tid =
     map_option (Pair (md_GetForTLF (sm_delegate m) ctx tid))
       (stallingMDOps_maybeStall m (sm_stallMap m) ctx StallableMDGetForTLF)"
  by (simp add: stallingMDOps_GetForTLF_def split: option.splits)

lemma sm_GetLatestHandleForTLF_ret:
  "stallingMDOps_GetLatestHandleForTLF m ctx tid =
     map_option (Pair (md_GetLatestHandleForTLF (sm_delegate m) ctx tid))
       (stallingMDOps_maybeStall m (sm_stallMap m) ctx StallableMDGetLatestHandleForTLF)"
  by (simp add: stallingMDOps_GetLatestHandleForTLF_def split: option.splits)

lemma sm_GetUnmergedForTLF_ret:
  "stallingMDOps_GetUnmergedForTLF m ctx tid bid =
     map_option (Pair (md_GetUnmergedForTLF (sm_delegate m) ctx tid bid))
       (stallingMDOps_maybeStall m (sm_stallMap m) ctx StallableMDGetUnmergedForTLF)"
  by (simp add: stallingMDOps_GetUnmergedForTLF_def split: option.splits)

lemma sm_GetRange_ret:
  "stallingMDOps_GetRange m ctx tid start stop =
     map_option (Pair (md_GetRange (sm_delegate m) ctx tid start stop))
       (stallingMDOps_maybeStall m (sm_stallMap m) ctx StallableMDGetRange)"
  by (simp add: stallingMDOps_GetRange_def split: option.splits)

lemma sm_GetUnmergedRange_ret:
  "stallingMDOps_GetUnmergedRange m ctx tid bid start stop =
     map_option (Pair (md_GetUnmergedRange (sm_delegate m) ctx tid bid start stop))
       (stallingMDOps_maybeStall m (sm_stallMap m) ctx StallableMDGetUnmergedRange)"
  by (simp add: stallingMDOps_GetUnmergedRange_def split: option.splits)

lemma stalling_Put_live:
  "(ctx_Err ctx 0 = None \<and> ctx_Err ctx 1 = None \<longrightarrow>
        stallingBlockOps_Put f ctx md ptr rbd =
          map_option (Pair (bops_Put (internalDelegate f) ctx md ptr rbd))
            (stallingBlockOps_maybeStall f ctx StallableBlockPut)
        \<and> stallingMDOps_Put m ctx md =
          Option.bind (stallingMDOps_maybeStall m (sm_stallMap m) ctx StallableMDPut)
            (\<lambda>sm. map_option (Pair (md_Put (sm_delegate m) ctx md))
               (stallingMDOps_maybeStall m sm ctx StallableMDAfterPut))
        \<and> stallingMDOps_PutUnmerged m ctx md bid =
          map_option (Pair (md_PutUnmerged (sm_delegate m) ctx md bid))
            (stallingMDOps_maybeStall m (sm_stallMap m) ctx StallableMDPutUnmerged))"
  by (auto simp: stallingBlockOps_Put_def stallingMDOps_Put_def stallingMDOps_PutUnmerged_def split: option.splits)

lemma stalling_Put_done_before:
  "(ctx_Err ctx 0 = Some cerr \<longrightarrow>
        stallingBlockOps_Put f ctx md ptr rbd =
          map_option (Pair (Some cerr)) (stallingBlockOps_maybeStall f ctx StallableBlockPut)
        \<and> stallingMDOps_Put m ctx md =
          map_option (Pair (Some cerr))
            (stallingMDOps_maybeStall m (sm_stallMap m) ctx StallableMDPut)
        \<and> stallingMDOps_PutUnmerged m ctx md bid =
          map_option (Pair (Some cerr))
            (stallingMDOps_maybeStall m (sm_stallMap m) ctx StallableMDPutUnmerged))"
  by (auto simp: stallingBlockOps_Put_def stallingMDOps_Put_def stallingMDOps_PutUnmerged_def
      split: option.splits)

lemma stalling_Put_done_after:
  "(ctx_Err ctx 0 = None \<and> ctx_Err ctx 1 = Some cerr \<longrightarrow>
        stallingBlockOps_Put f ctx md ptr rbd =
          map_option (Pair (Some cerr)) (stallingBlockOps_maybeStall f ctx StallableBlockPut)
        \<and> stallingMDOps_Put m ctx md =
          Option.bind (stallingMDOps_maybeStall m (sm_stallMap m) ctx StallableMDPut)
            (\<lambda>sm. map_option (Pair (Some cerr))
               (stallingMDOps_maybeStall m sm ctx StallableMDAfterPut))
        \<and> stallingMDOps_PutUnmerged m ctx md bid =
          map_option (Pair (Some cerr))
            (stallingMDOps_maybeStall m (sm_stallMap m) ctx StallableMDPutUnmerged))"
  by (auto simp: stallingBlockOps_Put_def stallingMDOps_Put_def stallingMDOps_PutUnmerged_def
      split: option.splits)

text \<open>
  C3, amended. The wrappers \<^verbatim>\<open>Get\<close>, \<^verbatim>\<open>Ready\<close>, \<^verbatim>\<open>Delete\<close> and \<^verbatim>\<open>Archive\<close> of
  \<^verbatim>\<open>stallingBlockOps\<close> and the seven \<^verbatim>\<open>Get\<close> wrappers of \<^verbatim>\<open>stallingMDOps\<close> return,
  once the stall is released, exactly the value the delegate returns. The three put
  wrappers (\<^verbatim>\<open>stallingBlockOps.Put\<close>, \<^verbatim>\<open>stallingMDOps.Put\<close> and
  \<^verbatim>\<open>stallingMDOps.PutUnmerged\<close>) do so when the context is done neither at the check
  before nor at the check after the call of the delegate; when it is done at one of
  them, they return, once the stall is released, the error of the context instead. In
  each case the wrapper returns exactly when its stalls are released.
\<close>

theorem stalling_ops_return:
  "stallingBlockOps_Get f ctx md ptr blk =
     map_option (Pair (bops_Get (internalDelegate f) ctx md ptr blk))
       (stallingBlockOps_maybeStall f ctx StallableBlockGet)
   \<and> stallingBlockOps_Ready f ctx md blk =
     map_option (Pair (bops_Ready (internalDelegate f) ctx md blk))
       (stallingBlockOps_maybeStall f ctx StallableBlockReady)
   \<and> stallingBlockOps_Delete f ctx md ptrs =
     map_option (Pair (bops_Delete (internalDelegate f) ctx md ptrs))
       (stallingBlockOps_maybeStall f ctx StallableBlockDelete)
   \<and> stallingBlockOps_Archive f ctx md ptrs =
     map_option (Pair (bops_Archive (internalDelegate f) ctx md ptrs))
       (stallingBlockOps_maybeStall f ctx StallableBlockArchive)
   \<and> stallingMDOps_GetForHandle m ctx handle =
     map_option (Pair (md_GetForHandle (sm_delegate m) ctx handle))
       (stallingMDOps_maybeStall m (sm_stallMap m) ctx StallableMDGetForHandle)
   \<and> stallingMDOps_GetUnmergedForHandle m ctx handle =
     map_option (Pair (md_GetUnmergedForHandle (sm_delegate m) ctx handle))
       (stallingMDOps_maybeStall m (sm_stallMap m) ctx StallableMDGetUnmergedForHandle)
   \<and> stallingMDOps_GetForTLF m ctx tid =
     map_option (Pair (md_GetForTLF (sm_delegate m) ctx tid))
       (stallingMDOps_maybeStall m (sm_stallMap m) ctx StallableMDGetForTLF)
   \<and> stallingMDOps_GetLatestHandleForTLF m ctx tid =
     map_option (Pair (md_GetLatestHandleForTLF (sm_delegate m) ctx tid))
       (stallingMDOps_maybeStall m (sm_stallMap m) ctx StallableMDGetLatestHandleForTLF)
   \<and> stallingMDOps_GetUnmergedForTLF m ctx tid bid =
     map_option (Pair (md_GetUnmergedForTLF (sm_delegate m) ctx tid bid))
       (stallingMDOps_maybeStall m (sm_stallMap m) ctx StallableMDGetUnmergedForTLF)
   \<and> stallingMDOps_GetRange m ctx tid start stop =
     map_option (Pair (md_GetRange (sm_delegate m) ctx tid start stop))
       (stallingMDOps_maybeStall m (sm_stallMap m) ctx StallableMDGetRange)
   \<and> stallingMDOps_GetUnmergedRange m ctx tid bid start stop =
     map_option (Pair (md_GetUnmergedRange (sm_delegate m) ctx tid bid start stop))
       (stallingMDOps_maybeStall m (sm_stallMap m) ctx StallableMDGetUnmergedRange)
   \<and> (ctx_Err ctx 0 = None \<and> ctx_Err ctx 1 = None \<longrightarrow>
        stallingBlockOps_Put f ctx md ptr rbd =
          map_option (Pair (bops_Put (internalDelegate f) ctx md ptr rbd))
            (stallingBlockOps_maybeStall f ctx StallableBlockPut)
        \<and> stallingMDOps_Put m ctx md =
          Option.bind (stallingMDOps_maybeStall m (sm_stallMap m) ctx StallableMDPut)
            (\<lambda>sm. map_option (Pair (md_Put (sm_delegate m) ctx md))
               (stallingMDOps_maybeStall m sm ctx StallableMDAfterPut))
        \<and> stallingMDOps_PutUnmerged m ctx md bid =
          map_option (Pair (md_PutUnmerged (sm_delegate m) ctx md bid))
            (stallingMDOps_maybeStall m (sm_stallMap m) ctx StallableMDPutUnmerged))
   \<and> (ctx_Err ctx 0 = Some cerr \<longrightarrow>
        stallingBlockOps_Put f ctx md ptr rbd =
          map_option (Pair (Some cerr)) (stallingBlockOps_maybeStall f ctx StallableBlockPut)
        \<and> stallingMDOps_Put m ctx md =
          map_option (Pair (Some cerr))
            (stallingMDOps_maybeStall m (sm_stallMap m) ctx StallableMDPut)
        \<and> stallingMDOps_PutUnmerged m ctx md bid =
          map_option (Pair (Some cerr))
            (stallingMDOps_maybeStall m (sm_stallMap m) ctx StallableMDPutUnmerged))
   \<and> (ctx_Err ctx 0 = None \<and> ctx_Err ctx 1 = Some cerr \<longrightarrow>
        stallingBlockOps_Put f ctx md ptr rbd =
          map_option (Pair (Some cerr)) (stallingBlockOps_maybeStall f ctx StallableBlockPut)
        \<and> stallingMDOps_Put m ctx md =
          Option.bind (stallingMDOps_maybeStall m (sm_stallMap m) ctx StallableMDPut)
            (\<lambda>sm. map_option (Pair (Some cerr))
               (stallingMDOps_maybeStall m sm ctx StallableMDAfterPut))
        \<and> stallingMDOps_PutUnmerged m ctx md bid =
          map_option (Pair (Some cerr))
            (stallingMDOps_maybeStall m (sm_stallMap m) ctx StallableMDPutUnmerged))"
  by (intro conjI) (rule sb_Get_ret sb_Ready_ret sb_Delete_ret sb_Archive_ret sm_GetForHandle_ret sm_GetUnmergedForHandle_ret sm_GetForTLF_ret sm_GetLatestHandleForTLF_ret sm_GetUnmergedForTLF_ret sm_GetRange_ret sm_GetUnmergedRange_ret stalling_Put_live
      stalling_Put_done_before stalling_Put_done_after)+

theorem stalling_ops_return_witness:
  "map_option fst (stallingBlockOps_Put sb_put ctx_live 0 ptr_new rbd_small) = Some None
   \<and> map_option fst (stallingMDOps_Put sm_put ctx_live 0) = Some None
   \<and> map_option fst (stallingBlockOps_Get sb_put ctx_live 0 ptr_new (FileBlockPtr 5)) = Some None
   \<and> map_option fst (stallingMDOps_PutUnmerged sm_put ctx_late 0 [])
       = Some (Some ContextCanceled)
   \<and> map_option fst (stallingMDOps_Put sm_put ctx_done 0) = Some (Some ContextCanceled)"
  using stalling_ops_return [where f = sb_put and ctx = ctx_live and md = 0 and ptr = ptr_new
      and blk = "FileBlockPtr 5" and m = sm_put and rbd = rbd_small and cerr = ContextCanceled
      and bid = "[]"]
    stalling_ops_return [where f = sb_put and ctx = ctx_late and md = 0 and ptr = ptr_new
      and blk = "FileBlockPtr 5" and m = sm_put and rbd = rbd_small and cerr = ContextCanceled
      and bid = "[]"]
    stalling_ops_return [where f = sb_put and ctx = ctx_done and md = 0 and ptr = ptr_new
      and blk = "FileBlockPtr 5" and m = sm_put and rbd = rbd_small and cerr = ContextCanceled
      and bid = "[]"]
  by (simp add: stallingBlockOps_maybeStall_def stallingMDOps_maybeStall_def maybeStall_def
      sb_put_def sm_put_def stall_put_def ctx_live_def ctx_late_def ctx_done_def bops_ok_def
      mdops_ok_def StallableBlockPut_def StallableBlockGet_def StallableMDPut_def
      StallableMDAfterPut_def StallableMDPutUnmerged_def)

text \<open>
  The claim as stated, for every wrapped operation and every context, fails for a put
  under a context that is cancelled while the call of the delegate is outstanding: the
  delegate returns \<^verbatim>\<open>nil\<close>, the wrapper the cancellation error.
\<close>

theorem stalling_ops_return_counterexample:
  "map_option fst (stallingBlockOps_Put sb_put ctx_late 0 ptr_new rbd_small)
     = Some (Some ContextCanceled)
   \<and> bops_Put (internalDelegate sb_put) ctx_late 0 ptr_new rbd_small = None"
  by (simp add: stallingBlockOps_Put_def stallingBlockOps_maybeStall_def maybeStall_def
      sb_put_def stall_put_def ctx_late_def bops_ok_def StallableBlockPut_def)

section \<open>The parallel puts\<close>

text \<open>
  C10. For the empty batch, \<^verbatim>\<open>doBlockPuts\<close> returns a \<^verbatim>\<open>nil\<close> pointer list and a
  \<^verbatim>\<open>nil\<close> error, and leaves the log as it was: no call to the block server, no
  callback, no call to the block cache.
\<close>

theorem doBlockPuts_empty:
  "doBlockPuts ctxDone bserv bcache IsPublic st maxParallelBlockPuts tlf tlfName sched
     \<lparr>blockStates = []\<rparr> w = Result [] None w"
  by (simp add: doBlockPuts_def started_def numWorkers_def run.simps first_runnable_def)

theorem doBlockPuts_empty_witness:
  "doBlockPuts False bserv_deleted bcache_ok (\<lambda>t. False) store0 100 [] ''alice'' [0, 1]
     \<lparr>blockStates = []\<rparr> world0 = Result [] None world0"
  using doBlockPuts_empty [of False bserv_deleted bcache_ok "\<lambda>t. False" store0 100 "[]"
      "''alice''" "[0, 1]" world0]
  by simp

subsection \<open>A worker's steps and the sequential call\<close>

text \<open>
  The two steps a worker takes from the receipt of an entry, the put and, when there is
  a block to report, the send, amount together to the sequential \<^verbatim>\<open>doOneBlockPut\<close>:
  they leave the channel and the log as the call does, and the worker holds the error
  the call returns; the call never returns exactly when the worker is left at a send
  that cannot proceed.
\<close>

lemma doOneBlockPut_steps:
  assumes "i < length (workers s)" and "workers s ! i = InPut bs"
  shows "case doOneBlockPut (groupCtxDone c s) (c_bserv c) (c_IsPublic c) (c_store c) (c_tlfID c)
           (c_tlfName c) bs (blocksToRemoveChan s) (c_cap c) (pworld s) of
      None \<Rightarrow> (\<exists>fblock e. workers (step c i s) ! i = Sending fblock e) \<and> \<not> runnable c (step c i s) i
    | Some (err, ch, w) \<Rightarrow>
        (let s' = (if (\<exists>fblock e. workers (step c i s) ! i = Sending fblock e) then step c i (step c i s)
                   else step c i s)
         in blocksToRemoveChan s' = ch
            \<and> pworld s' = w\<lparr>puts := puts w @ [(groupCtxDone c s, bs)]\<rparr>
            \<and> workers s' ! i = (case err of None \<Rightarrow> AtLoopHead | Some e \<Rightarrow> Failing e))"
  using assms
  by (auto simp: doOneBlockPut_def step_def runnable_def Let_def fblockToRemove_def
      split: prod.splits option.splits)

subsection \<open>The invariant\<close>

lemma collect_Nil [simp]: "collect f [] = {#}"
  by (simp add: collect_def)

lemma collect_Cons [simp]: "collect f (w # ws) = f w + collect f ws"
  by (simp add: collect_def)

lemma collect_replicate: "f w = {#} \<Longrightarrow> collect f (replicate n w) = {#}"
  by (induction n) simp_all

lemma collect_update:
  "i < length ws \<Longrightarrow> collect f (ws[i := x]) + f (ws ! i) = collect f ws + f x"
proof (induction ws arbitrary: i)
  case Nil
  then show ?case by simp
next
  case (Cons w ws)
  then show ?case by (cases i) (auto simp: add_ac)
qed

lemma collect_empty_iff: "collect f ws = {#} \<longleftrightarrow> (\<forall>w \<in> set ws. f w = {#})"
  by (induction ws) auto

lemma collect_mem: "w \<in> set ws \<Longrightarrow> f w \<subseteq># collect f ws"
  by (induction ws) (auto intro: subset_mset.add_increasing)

lemma sent_sending_le: "size (collect w_sent ws) + size (collect w_sending ws) \<le> length ws"
proof (induction ws)
  case Nil
  then show ?case by simp
next
  case (Cons w ws)
  then show ?case by (cases w rule: w_sent.cases) auto
qed

lemma collect_update_new:
  "i < length ws \<Longrightarrow> f (ws ! i) = {#} \<Longrightarrow> collect f (ws[i := x]) = collect f ws + f x"
  using collect_update [of i ws f x] by simp

lemma collect_update_same:
  "i < length ws \<Longrightarrow> f (ws ! i) = f x \<Longrightarrow> collect f (ws[i := x]) = collect f ws"
  using collect_update [of i ws f x] by simp

lemma collect_update_old:
  "i < length ws \<Longrightarrow> f x = {#} \<Longrightarrow> collect f ws = collect f (ws[i := x]) + f (ws ! i)"
  using collect_update [of i ws f x] by simp

lemma putBlockToServer_fst:
  "fst (putBlockToServer d bserv tlf ptr rbd w) = fst (putBlockToServer d bserv tlf ptr rbd world0)"
  by (simp add: putBlockToServer_def)

lemma PutBlockCheckQuota_fst:
  "fst (PutBlockCheckQuota d (c_bserv c) P (c_tlfID c) (blockPtr bs) (readyBlockData bs) n w)
     = quota_err c d bs"
  by (simp add: PutBlockCheckQuota_def quota_err_def remote_err_def putBlockToServer_def
      split: option.splits error.splits bool.splits)

lemma PutBlockCheckQuota_snd:
  "bservCalls (snd (PutBlockCheckQuota d bserv P tlf (blockPtr bs) (readyBlockData bs) n w))
     = bservCalls w @ [bserv_call_of tlf bs]
   \<and> synced (snd (PutBlockCheckQuota d bserv P tlf (blockPtr bs) (readyBlockData bs) n w))
     = synced w
   \<and> bcacheCalls (snd (PutBlockCheckQuota d bserv P tlf (blockPtr bs) (readyBlockData bs) n w))
     = bcacheCalls w
   \<and> warnings (snd (PutBlockCheckQuota d bserv P tlf (blockPtr bs) (readyBlockData bs) n w))
     = warnings w
   \<and> puts (snd (PutBlockCheckQuota d bserv P tlf (blockPtr bs) (readyBlockData bs) n w))
     = puts w"
  by (simp add: PutBlockCheckQuota_def putBlockToServer_def bserv_call_of_def
      split: option.splits error.splits bool.splits)

lemma doOneBlockPut_err_fst:
  "fst (doOneBlockPut_err d (c_bserv c) P (c_tlfID c) n bs w) = put_err c d bs"
proof -
  obtain e w' where q: "PutBlockCheckQuota d (c_bserv c) P (c_tlfID c) (blockPtr bs)
      (readyBlockData bs) n w = (e, w')"
    by (cases "PutBlockCheckQuota d (c_bserv c) P (c_tlfID c) (blockPtr bs)
      (readyBlockData bs) n w")
  then have "e = quota_err c d bs"
    using PutBlockCheckQuota_fst [of d c P bs n w] by simp
  with q show ?thesis
    by (simp add: doOneBlockPut_err_def put_err_def split: option.splits)
qed

lemma doOneBlockPut_err_snd:
  "bservCalls (snd (doOneBlockPut_err d (c_bserv c) P (c_tlfID c) n bs w))
     = bservCalls w @ [bserv_call_of (c_tlfID c) bs]
   \<and> synced (snd (doOneBlockPut_err d (c_bserv c) P (c_tlfID c) n bs w))
     = synced w @ (if cb_called c (d, bs) then [bs] else [])
   \<and> bcacheCalls (snd (doOneBlockPut_err d (c_bserv c) P (c_tlfID c) n bs w)) = bcacheCalls w
   \<and> warnings (snd (doOneBlockPut_err d (c_bserv c) P (c_tlfID c) n bs w)) = warnings w
   \<and> puts (snd (doOneBlockPut_err d (c_bserv c) P (c_tlfID c) n bs w)) = puts w"
proof -
  obtain e w' where q: "PutBlockCheckQuota d (c_bserv c) P (c_tlfID c) (blockPtr bs)
      (readyBlockData bs) n w = (e, w')"
    by (cases "PutBlockCheckQuota d (c_bserv c) P (c_tlfID c) (blockPtr bs)
      (readyBlockData bs) n w")
  then have e: "e = quota_err c d bs"
    using PutBlockCheckQuota_fst [of d c P bs n w] by simp
  from q have w': "bservCalls w' = bservCalls w @ [bserv_call_of (c_tlfID c) bs]"
    "synced w' = synced w" "bcacheCalls w' = bcacheCalls w" "warnings w' = warnings w"
    "puts w' = puts w"
    using PutBlockCheckQuota_snd [of d "c_bserv c" P "c_tlfID c" bs n w] by simp_all
  show ?thesis
    using q e w' by (simp add: doOneBlockPut_err_def cb_called_def split: option.splits)
qed

lemma put_errs_snoc [simp]:
  "put_errs c (ps @ [p]) = put_errs c ps @ opt_list (put_err c (fst p) (snd p))"
  by (simp add: put_errs_def)

lemma put_sends_snoc [simp]:
  "put_sends c (ps @ [p]) =
     put_sends c ps @ opt_list (fblockToRemove (c_store c) (snd p) (put_err c (fst p) (snd p)))"
  by (simp add: put_sends_def)

lemma put_errs_Nil [simp]: "put_errs c [] = []"
  by (simp add: put_errs_def)

lemma put_sends_Nil [simp]: "put_sends c [] = []"
  by (simp add: put_sends_def)

lemma fblockToRemove_None [simp]: "fblockToRemove st bs None = None"
  by (simp add: fblockToRemove_def)

lemma inv_started:
  "puts_inv (worker_closure d bserv P st maxP tlf n bps) (blockStates bps) (started maxP bps world0)"
  by (simp add: puts_inv_def started_def worker_closure_def world0_def collect_replicate)

lemma inv_step:
  assumes "puts_inv c bss s" and "runnable c s i"
  shows "puts_inv c bss (step c i s)"
proof -
  from assms(2) have i: "i < length (workers s)"
    by (simp add: runnable_def)
  note upd = collect_update_new [OF i] collect_update_same [OF i]
  show ?thesis
  proof (cases "workers s ! i")
    case AtLoopHead
    then show ?thesis
      using assms(1) by (cases "blocks s") (auto simp: puts_inv_def step_def upd)
  next
    case (InPut bs)
    obtain e w' where p: "doOneBlockPut_err (groupCtxDone c s) (c_bserv c) (c_IsPublic c)
        (c_tlfID c) (c_tlfName c) bs (pworld s) = (e, w')"
      by (cases "doOneBlockPut_err (groupCtxDone c s) (c_bserv c) (c_IsPublic c)
        (c_tlfID c) (c_tlfName c) bs (pworld s)")
    then have e: "e = put_err c (groupCtxDone c s) bs"
      using doOneBlockPut_err_fst [of "groupCtxDone c s" c "c_IsPublic c" "c_tlfName c" bs "pworld s"]
      by simp
    from p have w': "bservCalls w' = bservCalls (pworld s) @ [bserv_call_of (c_tlfID c) bs]"
      "synced w' = synced (pworld s) @ (if cb_called c (groupCtxDone c s, bs) then [bs] else [])"
      "bcacheCalls w' = bcacheCalls (pworld s)" "warnings w' = warnings (pworld s)"
      "puts w' = puts (pworld s)"
      using doOneBlockPut_err_snd [of "groupCtxDone c s" c "c_IsPublic c" "c_tlfName c" bs "pworld s"]
      by simp_all
    have old: "collect w_input (workers s) = add_mset bs (collect w_input ((workers s)[i := x]))"
      if "w_input x = {#}" for x
      using collect_update_old [of i "workers s" w_input x] i that InPut by simp
    show ?thesis
    proof (cases e)
      case None
      with InPut p e w' assms(1) old [of AtLoopHead] show ?thesis
        by (simp add: puts_inv_def step_def upd)
    next
      case (Some err)
      show ?thesis
      proof (cases "fblockToRemove (c_store c) bs e")
        case None
        with Some InPut p e w' assms(1) old [of "Failing err"] show ?thesis
          by (simp add: puts_inv_def step_def upd)
      next
        case (Some fblock)
        with \<open>e = Some err\<close> InPut p e w' assms(1) old [of "Sending fblock err"] show ?thesis
          by (simp add: puts_inv_def step_def upd)
      qed
    qed
  next
    case (Sending fblock e)
    have old: "collect w_sending (workers s)
        = add_mset fblock (collect w_sending ((workers s)[i := Failing e]))"
      using collect_update_old [of i "workers s" w_sending "Failing e"] i Sending by simp
    with Sending assms(1) show ?thesis
      by (simp add: puts_inv_def step_def upd)
  next
    case (Failing e)
    with assms(1) show ?thesis
      by (auto simp: puts_inv_def step_def upd split: option.splits)
  next
    case (Returned r)
    with assms(2) show ?thesis
      by (simp add: runnable_def)
  qed
qed

lemma exec_inv: "puts_inv c bss s \<Longrightarrow> puts_inv c bss (exec c ks s)"
proof (induction ks arbitrary: s)
  case Nil
  then show ?case by (simp add: exec_def)
next
  case (Cons k ks)
  have "puts_inv c bss (sched_step c s k)"
    using Cons.prems by (simp add: sched_step_def inv_step)
  then have "puts_inv c bss (exec c ks (sched_step c s k))"
    by (rule Cons.IH)
  then show ?case by (simp add: exec_def)
qed

lemma run_None: "first_runnable c s = None \<Longrightarrow> run c sched s = s"
  by (subst run.simps) simp

lemma run_Nil: "first_runnable c s = Some j \<Longrightarrow> run c [] s = run c [] (step c j s)"
  by (subst run.simps) simp

lemma run_Cons:
  "first_runnable c s = Some j \<Longrightarrow>
   run c (k # ks) s = run c ks (step c (if runnable c s k then k else j) s)"
  by (subst run.simps) simp

lemma run_inv: "puts_inv c bss s \<Longrightarrow> puts_inv c bss (run c sched s)"
proof (induction c sched s rule: run.induct)
  case (1 c sched s)
  show ?case
  proof (cases "first_runnable c s")
    case None
    with "1.prems" show ?thesis by (simp add: run_None)
  next
    case (Some j)
    then have rj: "runnable c s j" by (rule first_runnable_Some)
    show ?thesis
    proof (cases sched)
      case Nil
      have "puts_inv c bss (run c [] (step c j s))"
        using "1.IH"(1) [OF Some Nil] "1.prems" rj by (simp add: inv_step)
      with Some Nil show ?thesis by (simp add: run_Nil)
    next
      case (Cons k ks)
      have "runnable c s (if runnable c s k then k else j)"
        using rj by simp
      then have "puts_inv c bss (run c ks (step c (if runnable c s k then k else j) s))"
        using "1.IH"(2) [OF Some Cons] "1.prems" by (simp add: inv_step)
      with Some Cons show ?thesis by (simp add: run_Cons)
    qed
  qed
qed

lemma run_final: "first_runnable c (run c sched s) = None"
proof (induction c sched s rule: run.induct)
  case (1 c sched s)
  show ?case
  proof (cases "first_runnable c s")
    case None
    then show ?thesis by (simp add: run_None)
  next
    case (Some j)
    show ?thesis
    proof (cases sched)
      case Nil
      with Some "1.IH"(1) [OF Some Nil] show ?thesis by (simp add: run_Nil)
    next
      case (Cons k ks)
      with Some "1.IH"(2) [OF Some Cons] show ?thesis by (simp add: run_Cons)
    qed
  qed
qed

lemma first_runnable_None: "first_runnable c s = None \<Longrightarrow> \<not> runnable c s i"
  by (auto simp: first_runnable_def find_None_iff runnable_def)

lemma inv_sending_runnable:
  assumes "puts_inv c bss s" and "i < length (workers s)" and "workers s ! i = Sending fblock e"
  shows "runnable c s i"
proof -
  have "workers s ! i \<in> set (workers s)"
    using assms(2) by simp
  then have "w_sending (workers s ! i) \<subseteq># collect w_sending (workers s)"
    by (rule collect_mem)
  then have "size (w_sending (workers s ! i)) \<le> size (collect w_sending (workers s))"
    by (rule size_mset_mono)
  then have "1 \<le> size (collect w_sending (workers s))"
    using assms(3) by simp
  moreover have "size (collect w_sent (workers s)) + size (collect w_sending (workers s))
      \<le> length (workers s)"
    by (rule sent_sending_le)
  moreover have "length (blocksToRemoveChan s) \<le> size (collect w_sent (workers s))"
    and "length (workers s) = c_cap c"
    using assms(1) by (simp_all add: puts_inv_def)
  ultimately have "length (blocksToRemoveChan s) < c_cap c"
    by linarith
  with assms(2,3) show ?thesis by (simp add: runnable_def)
qed

lemma inv_chan_le: "puts_inv c bss s \<Longrightarrow> length (blocksToRemoveChan s) \<le> c_cap c"
  using sent_sending_le [of "workers s"] by (simp add: puts_inv_def)

lemma inv_final_returned:
  assumes "puts_inv c bss s" and "first_runnable c s = None"
  shows "list_all has_returned (workers s)"
proof -
  have "has_returned (workers s ! i)" if i: "i < length (workers s)" for i
  proof (cases "workers s ! i")
    case (Sending fblock e)
    then have "runnable c s i" using assms(1) i by (rule inv_sending_runnable [rotated 2])
    with assms(2) show ?thesis by (simp add: first_runnable_None)
  next
    case (Returned r)
    then show ?thesis by simp
  qed (use first_runnable_None [OF assms(2), of i] i in \<open>simp_all add: runnable_def\<close>)
  then show ?thesis by (simp add: list_all_length)
qed

text \<open>
  C9. For every batch and every schedule of the workers, in every state the workers
  reach, the number of blocks recorded on \<^verbatim>\<open>blocksToRemoveChan\<close> is at most the number
  of workers, which is the capacity of the channel, and a worker that is about to send
  finds the channel short of full: no worker ever blocks on the channel, and
  \<^verbatim>\<open>doBlockPuts\<close> is never left waiting for a worker that cannot return.
\<close>

theorem blocksToRemoveChan_never_full:
  "length (blocksToRemoveChan
       (exec (worker_closure ctxDone bserv IsPublic st maxParallelBlockPuts tlf tlfName bps) ks
          (started maxParallelBlockPuts bps world0)))
     \<le> numWorkers maxParallelBlockPuts bps
   \<and> (\<forall>i fblock e.
        i < length (workers
              (exec (worker_closure ctxDone bserv IsPublic st maxParallelBlockPuts tlf tlfName bps)
                 ks (started maxParallelBlockPuts bps world0)))
        \<and> workers
            (exec (worker_closure ctxDone bserv IsPublic st maxParallelBlockPuts tlf tlfName bps)
               ks (started maxParallelBlockPuts bps world0)) ! i = Sending fblock e
        \<longrightarrow> length (blocksToRemoveChan
              (exec (worker_closure ctxDone bserv IsPublic st maxParallelBlockPuts tlf tlfName bps)
                 ks (started maxParallelBlockPuts bps world0)))
            < numWorkers maxParallelBlockPuts bps)
   \<and> doBlockPuts ctxDone bserv bcache IsPublic st maxParallelBlockPuts tlf tlfName sched bps
        world0 \<noteq> Deadlock"
proof -
  define c where "c = worker_closure ctxDone bserv IsPublic st maxParallelBlockPuts tlf tlfName bps"
  define s0 where "s0 = started maxParallelBlockPuts bps world0"
  have cap: "c_cap c = numWorkers maxParallelBlockPuts bps"
    by (simp add: c_def worker_closure_def)
  have inv0: "puts_inv c (blockStates bps) s0"
    unfolding c_def s0_def by (rule inv_started)
  have e: "puts_inv c (blockStates bps) (exec c ks s0)"
    using inv0 by (rule exec_inv)
  have 1: "length (blocksToRemoveChan (exec c ks s0)) \<le> numWorkers maxParallelBlockPuts bps"
    using inv_chan_le [OF e] cap by simp
  have 2: "length (blocksToRemoveChan (exec c ks s0)) < numWorkers maxParallelBlockPuts bps"
    if "i < length (workers (exec c ks s0))" "workers (exec c ks s0) ! i = Sending fblock e"
    for i fblock e
    using inv_sending_runnable [OF e that] that cap by (simp add: runnable_def)
  have "list_all has_returned (workers (run c sched s0))"
    using run_inv [OF inv0] run_final by (rule inv_final_returned)
  then have 3: "doBlockPuts ctxDone bserv bcache IsPublic st maxParallelBlockPuts tlf tlfName
      sched bps world0 \<noteq> Deadlock"
    by (simp add: doBlockPuts_def Let_def c_def [symmetric] s0_def [symmetric]
        split: go.splits prod.splits)
  from 1 2 3 show ?thesis
    unfolding c_def s0_def by blast
qed

theorem blocksToRemoveChan_never_full_witness:
  "workers (exec (worker_closure False bserv_deleted (\<lambda>t. False) store0 100 [] ''alice''
       \<lparr>blockStates = [bs_A, bs_B]\<rparr>) [0, 0] (started 100 \<lparr>blockStates = [bs_A, bs_B]\<rparr> world0)) ! 0
     = Sending (FileBlockPtr 1) (BServerErrorBlockDeleted ''deleted'')
   \<and> length (blocksToRemoveChan (exec (worker_closure False bserv_deleted (\<lambda>t. False) store0 100
       [] ''alice'' \<lparr>blockStates = [bs_A, bs_B]\<rparr>) [0, 0]
       (started 100 \<lparr>blockStates = [bs_A, bs_B]\<rparr> world0))) < 2
   \<and> doBlockPuts False bserv_deleted bcache_ok (\<lambda>t. False) store0 100 [] ''alice'' [0, 0]
       \<lparr>blockStates = [bs_A, bs_B]\<rparr> world0 \<noteq> Deadlock"
proof -
  let ?s = "exec (worker_closure False bserv_deleted (\<lambda>t. False) store0 100 [] ''alice''
       \<lparr>blockStates = [bs_A, bs_B]\<rparr>) [0, 0] (started 100 \<lparr>blockStates = [bs_A, bs_B]\<rparr> world0)"
  have w: "workers ?s = [Sending (FileBlockPtr 1) (BServerErrorBlockDeleted ''deleted''), AtLoopHead]"
    by (simp add: exec_def sched_step_def eval_defs Let_def)
  then have "0 < length (workers ?s)
      \<and> workers ?s ! 0 = Sending (FileBlockPtr 1) (BServerErrorBlockDeleted ''deleted'')"
    by simp
  then show ?thesis
    using blocksToRemoveChan_never_full [of False bserv_deleted "\<lambda>t. False" store0 100 "[]"
        "''alice''" "\<lparr>blockStates = [bs_A, bs_B]\<rparr>" "[0, 0]" bcache_ok "[0, 0]"]
    by (auto simp: numWorkers_def)
qed

lemma collect_cong: "(\<And>w. w \<in> set ws \<Longrightarrow> f w = g w) \<Longrightarrow> collect f ws = collect g ws"
  by (induction ws) simp_all

lemma has_returned_iff: "has_returned w \<longleftrightarrow> (\<exists>r. w = Returned r)"
  by (cases w) simp_all

lemma returned_collect:
  assumes "list_all has_returned ws"
  shows "collect w_input ws = {#}" and "collect w_sending ws = {#}"
    and "collect w_failed ws = collect w_err ws"
proof -
  have r: "\<exists>r. w = Returned r" if "w \<in> set ws" for w
    using assms that by (simp add: list_all_iff has_returned_iff)
  show "collect w_input ws = {#}"
    using r by (fastforce simp: collect_empty_iff)
  show "collect w_sending ws = {#}"
    using r by (fastforce simp: collect_empty_iff)
  show "collect w_failed ws = collect w_err ws"
  proof (rule collect_cong)
    fix w assume "w \<in> set ws"
    then obtain r' where "w = Returned r'" using r by blast
    then show "w_failed w = w_err w" by (cases r') simp_all
  qed
qed

lemma returned_no_err:
  assumes "list_all has_returned ws" and "collect w_err ws = {#}" and "ws \<noteq> []"
  shows "collect w_done ws \<noteq> {#}"
proof -
  obtain w where w: "w \<in> set ws" using assms(3) by (cases ws) auto
  then obtain r where r: "w = Returned r"
    using assms(1) by (auto simp: list_all_iff has_returned_iff)
  have "w_err w = {#}" using assms(2) w by (simp add: collect_empty_iff)
  with r have "w = Returned None" by (cases r) simp_all
  then have "w_done w \<noteq> {#}" by simp
  with w show ?thesis by (auto simp: collect_empty_iff)
qed

lemma put_errs_all_ok:
  "(\<And>p. p \<in> set ps \<Longrightarrow> put_err c (fst p) (snd p) = None) \<Longrightarrow> put_errs c ps = []"
  by (induction ps) (simp_all add: put_errs_def)

lemma put_sends_all_ok:
  "(\<And>p. p \<in> set ps \<Longrightarrow> put_err c (fst p) (snd p) = None) \<Longrightarrow> put_sends c ps = []"
  by (induction ps) (simp_all add: put_sends_def)

lemma inv_puts_in_batch:
  assumes "puts_inv c bss s" and "p \<in> set (puts (pworld s))"
  shows "snd p \<in> set bss"
proof -
  have "snd p \<in># mset (map snd (puts (pworld s)))"
    using assms(2) by simp
  then have "snd p \<in># mset bss"
    using assms(1) unfolding puts_inv_def by (metis union_iff)
  then show ?thesis by simp
qed

lemma numWorkers_pos:
  "0 < maxP \<Longrightarrow> blockStates bps \<noteq> [] \<Longrightarrow> 0 < numWorkers maxP bps"
  by (simp add: numWorkers_def)

subsection \<open>The group context while no put fails\<close>

lemma flags_ok_snoc:
  "flags_ok c failed (ps @ [p]) \<longleftrightarrow>
     flags_ok c failed ps \<and> (fst p = c_ctxDone c \<or> failed \<or> put_errs c ps \<noteq> [])"
proof (induction ps arbitrary: failed)
  case Nil
  then show ?case by simp
next
  case (Cons q ps)
  show ?case
    by (cases "put_err c (fst q) (snd q)") (auto simp: Cons.IH put_errs_def)
qed

lemma flags_ok_live:
  assumes "flags_ok c False ps"
    and "\<And>p. p \<in> set ps \<Longrightarrow> put_err c (c_ctxDone c) (snd p) = None"
  shows "\<forall>p \<in> set ps. fst p = c_ctxDone c"
  using assms
proof (induction ps)
  case Nil
  then show ?case by simp
next
  case (Cons q ps)
  from Cons.prems(1) have q: "fst q = c_ctxDone c" by simp
  have "put_err c (c_ctxDone c) (snd q) = None"
    using Cons.prems(2) [of q] by simp
  with q have "put_err c (fst q) (snd q) = None" by simp
  with Cons.prems(1) have "flags_ok c False ps" by simp
  then have "\<forall>p \<in> set ps. fst p = c_ctxDone c"
    using Cons.prems(2) by (intro Cons.IH) auto
  with q show ?case by simp
qed

lemma run_invariant:
  assumes "P c s" and "\<And>c s i. P c s \<Longrightarrow> runnable c s i \<Longrightarrow> P c (step c i s)"
  shows "P c (run c sched s)"
  using assms(1)
proof (induction c sched s rule: run.induct)
  case (1 c sched s)
  show ?case
  proof (cases "first_runnable c s")
    case None
    with "1.prems" show ?thesis by (simp add: run_None)
  next
    case (Some j)
    then have rj: "runnable c s j" by (rule first_runnable_Some)
    show ?thesis
    proof (cases sched)
      case Nil
      have "P c (step c j s)"
        using "1.prems" rj by (rule assms(2))
      then have "P c (run c [] (step c j s))"
        by (rule "1.IH"(1) [OF Some Nil])
      with Some Nil show ?thesis by (simp add: run_Nil)
    next
      case (Cons k ks)
      have "runnable c s (if runnable c s k then k else j)"
        using rj by simp
      with "1.prems" have "P c (step c (if runnable c s k then k else j) s)"
        by (rule assms(2))
      then have "P c (run c ks (step c (if runnable c s k then k else j) s))"
        by (rule "1.IH"(2) [OF Some Cons])
      with Some Cons show ?thesis by (simp add: run_Cons)
    qed
  qed
qed

lemma exec_invariant:
  assumes "P c s" and "\<And>c s i. P c s \<Longrightarrow> runnable c s i \<Longrightarrow> P c (step c i s)"
  shows "P c (exec c ks s)"
  using assms(1)
proof (induction ks arbitrary: s)
  case Nil
  then show ?case by (simp add: exec_def)
next
  case (Cons k ks)
  have "P c (sched_step c s k)"
    using Cons.prems assms(2) by (simp add: sched_step_def)
  then have "P c (exec c ks (sched_step c s k))"
    by (rule Cons.IH)
  then show ?case by (simp add: exec_def)
qed

lemma inv_groupErr_failed:
  assumes "puts_inv c bss s" and "groupErr s \<noteq> None"
  shows "put_errs c (puts (pworld s)) \<noteq> []"
proof -
  have "collect w_failed (workers s) \<noteq> {#}"
    using assms by (simp add: puts_inv_def)
  then obtain w where w: "w \<in> set (workers s)" "w_failed w \<noteq> {#}"
    by (auto simp: collect_empty_iff)
  then have "w_err w \<noteq> {#}"
    by (cases w rule: w_failed.cases) simp_all
  with w(1) have "collect w_err (workers s) \<noteq> {#}"
    by (auto simp: collect_empty_iff)
  then show ?thesis
    using assms(1) by (auto simp: puts_inv_def)
qed

lemma step_puts:
  "puts (pworld (step c i s)) = puts (pworld s)
   \<or> (\<exists>bs. puts (pworld (step c i s)) = puts (pworld s) @ [(groupCtxDone c s, bs)])"
proof (cases "workers s ! i")
  case (InPut bs)
  obtain e w' where p: "doOneBlockPut_err (groupCtxDone c s) (c_bserv c) (c_IsPublic c)
      (c_tlfID c) (c_tlfName c) bs (pworld s) = (e, w')"
    by (cases "doOneBlockPut_err (groupCtxDone c s) (c_bserv c) (c_IsPublic c)
      (c_tlfID c) (c_tlfName c) bs (pworld s)")
  then have "puts w' = puts (pworld s)"
    using doOneBlockPut_err_snd [of "groupCtxDone c s" c "c_IsPublic c" "c_tlfName c" bs "pworld s"]
    by simp
  with InPut p show ?thesis
    by (auto simp: step_def Let_def split: option.splits)
qed (simp_all add: step_def split: list.splits)

lemma live_inv_step:
  assumes "live_inv bss c s" and "runnable c s i"
  shows "live_inv bss c (step c i s)"
proof -
  have i: "puts_inv c bss (step c i s)"
    using assms by (simp add: live_inv_def inv_step)
  have "groupCtxDone c s = c_ctxDone c \<or> put_errs c (puts (pworld s)) \<noteq> []"
    using inv_groupErr_failed [of c bss s] assms(1)
    by (auto simp: live_inv_def groupCtxDone_def)
  then have "flags_ok c False (puts (pworld (step c i s)))"
    using step_puts [of c i s] assms(1) by (auto simp: live_inv_def flags_ok_snoc)
  with i show ?thesis by (simp add: live_inv_def)
qed

lemma live_inv_run:
  "live_inv (blockStates bps) (worker_closure d bserv P st maxP tlf n bps)
     (run (worker_closure d bserv P st maxP tlf n bps) sched (started maxP bps world0))"
proof (rule run_invariant)
  show "live_inv (blockStates bps) (worker_closure d bserv P st maxP tlf n bps)
      (started maxP bps world0)"
    using inv_started [of d bserv P st maxP tlf n bps]
    by (simp add: live_inv_def started_def world0_def)
qed (rule live_inv_step)

text \<open>
  C5. For every batch in which, under the state of the caller's context, the remote
  call of every entry succeeds and every completion callback that is set succeeds,
  \<^verbatim>\<open>doBlockPuts\<close> returns, under every schedule of the workers, a \<^verbatim>\<open>nil\<close> pointer list
  and a \<^verbatim>\<open>nil\<close> error; every entry has been processed exactly once (the entries
  processed and the remote calls issued are those of the batch, with their
  multiplicities), every put has run under the state of the caller's context (the
  group context is not cancelled while no put fails), the callback of each entry that
  has one has been called exactly once, and the block cache has not been called. The
  constant \<^verbatim>\<open>maxParallelBlockPuts\<close> is a positive number.
\<close>

theorem doBlockPuts_all_succeed:
  assumes "0 < maxParallelBlockPuts"
    and "\<forall>bs \<in> set (blockStates bps).
           fst (putBlockToServer ctxDone bserv tlf (blockPtr bs) (readyBlockData bs) world0) = None
           \<and> (syncedCb bs = None \<or> syncedCb bs = Some None)"
  shows "\<exists>w'. doBlockPuts ctxDone bserv bcache IsPublic st maxParallelBlockPuts tlf tlfName sched
            bps world0 = Result [] None w'
          \<and> mset (map snd (puts w')) = mset (blockStates bps)
          \<and> list_all (\<lambda>p. fst p = ctxDone) (puts w')
          \<and> mset (bservCalls w') = mset (map (bserv_call_of tlf) (blockStates bps))
          \<and> mset (synced w') = mset (filter (\<lambda>bs. syncedCb bs \<noteq> None) (blockStates bps))
          \<and> bcacheCalls w' = []"
proof -
  define c where "c = worker_closure ctxDone bserv IsPublic st maxParallelBlockPuts tlf tlfName bps"
  define s where "s = run c sched (started maxParallelBlockPuts bps world0)"
  have c: "c_cap c = numWorkers maxParallelBlockPuts bps" "c_bserv c = bserv" "c_tlfID c = tlf"
    "c_ctxDone c = ctxDone"
    by (simp_all add: c_def worker_closure_def)
  have li: "live_inv (blockStates bps) c s"
    unfolding s_def c_def by (rule live_inv_run)
  then have i: "puts_inv c (blockStates bps) s" and fl: "flags_ok c False (puts (pworld s))"
    by (simp_all add: live_inv_def)
  have fin: "first_runnable c s = None"
    unfolding s_def by (rule run_final)
  have ret: "list_all has_returned (workers s)"
    using i fin by (rule inv_final_returned)
  have q: "quota_err c ctxDone bs = None" if "bs \<in> set (blockStates bps)" for bs
    using assms(2) that by (simp add: quota_err_def remote_err_def c)
  have ok: "put_err c ctxDone bs = None" if "bs \<in> set (blockStates bps)" for bs
    using assms(2) that q [OF that] by (auto simp: put_err_def)
  have live: "\<forall>p \<in> set (puts (pworld s)). fst p = ctxDone"
    using flags_ok_live [OF fl] ok inv_puts_in_batch [OF i] by (simp add: c)
  have okp: "put_err c (fst p) (snd p) = None" if "p \<in> set (puts (pworld s))" for p
    using ok inv_puts_in_batch [OF i that] live that by simp
  have errs: "put_errs c (puts (pworld s)) = []" and sends: "put_sends c (puts (pworld s)) = []"
    using okp by (simp_all add: put_errs_all_ok put_sends_all_ok)
  have noerr: "collect w_err (workers s) = {#}"
    using i errs by (simp add: puts_inv_def)
  then have nofail: "collect w_failed (workers s) = {#}"
    using returned_collect(3) [OF ret] by simp
  then have ge: "groupErr s = None"
    using i by (simp add: puts_inv_def)
  have bl: "blocks s = []"
  proof (cases "blockStates bps = []")
    case True
    then show ?thesis using i by (simp add: puts_inv_def)
  next
    case False
    then have "workers s \<noteq> []"
      using i numWorkers_pos [OF assms(1) False] c by (auto simp: puts_inv_def)
    then have "collect w_done (workers s) \<noteq> {#}"
      using ret noerr by (rule returned_no_err [rotated 2])
    then show ?thesis using i by (simp add: puts_inv_def)
  qed
  have all: "mset (map snd (puts (pworld s))) = mset (blockStates bps)"
    using i bl returned_collect(1) [OF ret] by (simp add: puts_inv_def)
  have calls: "mset (bservCalls (pworld s)) = mset (map (bserv_call_of tlf) (blockStates bps))"
  proof -
    have "mset (bservCalls (pworld s))
        = image_mset (bserv_call_of tlf) (mset (map snd (puts (pworld s))))"
      using i c by (simp add: puts_inv_def multiset.map_comp)
    then show ?thesis using all by simp
  qed
  have cb: "cb_called c p \<longleftrightarrow> syncedCb (snd p) \<noteq> None" if "p \<in> set (puts (pworld s))" for p
    using q [OF inv_puts_in_batch [OF i that]] live that by (simp add: cb_called_def)
  have "filter (cb_called c) (puts (pworld s))
      = filter (\<lambda>p. syncedCb (snd p) \<noteq> None) (puts (pworld s))"
    using cb by (intro filter_cong) auto
  then have "synced (pworld s)
      = filter (\<lambda>bs. syncedCb bs \<noteq> None) (map snd (puts (pworld s)))"
    using i by (simp add: puts_inv_def filter_map comp_def)
  then have "mset (synced (pworld s))
      = filter_mset (\<lambda>bs. syncedCb bs \<noteq> None) (mset (map snd (puts (pworld s))))"
    by (simp only: mset_filter)
  then have sy: "mset (synced (pworld s))
      = mset (filter (\<lambda>bs. syncedCb bs \<noteq> None) (blockStates bps))"
    using all by simp
  have bc: "bcacheCalls (pworld s) = []"
    using i by (simp add: puts_inv_def)
  have lv: "list_all (\<lambda>p. fst p = ctxDone) (puts (pworld s))"
    using live by (simp add: list_all_iff)
  have "doBlockPuts ctxDone bserv bcache IsPublic st maxParallelBlockPuts tlf tlfName sched
      bps world0 = Result [] None (pworld s)"
    using ret ge by (simp add: doBlockPuts_def Let_def c_def [symmetric] s_def [symmetric])
  with all calls sy bc lv show ?thesis by blast
qed

theorem doBlockPuts_all_succeed_witness:
  "\<exists>w'. doBlockPuts False bserv_ctx bcache_ok (\<lambda>t. False) store0 100 [] ''alice'' [1, 0, 1]
          \<lparr>blockStates = [bs_B, bs_ref]\<rparr> world0 = Result [] None w'
      \<and> mset (map snd (puts w')) = {#bs_B, bs_ref#}
      \<and> list_all (\<lambda>p. fst p = False) (puts w')
      \<and> mset (bservCalls w') =
          {#PutCall [] [2] (Context ptr_new) [1, 2, 3] [9],
            AddBlockReferenceCall [] [2] (Context ptr_ref)#}
      \<and> mset (synced w') = {#bs_B#}
      \<and> bcacheCalls w' = []"
proof -
  let ?bps = "\<lparr>blockStates = [bs_B, bs_ref]\<rparr>"
  have 1: "(0::nat) < 100" by simp
  have 2: "\<forall>bs \<in> set (blockStates ?bps).
      fst (putBlockToServer False bserv_ctx [] (blockPtr bs) (readyBlockData bs) world0) = None
      \<and> (syncedCb bs = None \<or> syncedCb bs = Some None)"
    by (simp add: eval_defs)
  show ?thesis
    using doBlockPuts_all_succeed [where maxParallelBlockPuts = 100 and bps = ?bps
        and bserv = bserv_ctx and tlf = "[]" and st = store0 and ctxDone = False
        and bcache = bcache_ok and IsPublic = "\<lambda>t. False" and tlfName = "''alice''"
        and sched = "[1, 0, 1]", OF 1 2]
    by (simp add: bs_B_def bs_ref_def bserv_call_of_def ZeroRefNonce_def ptr_new_def ptr_ref_def
        rbd_small_def)
qed

lemma bcacheCalls_logWarning [simp]: "bcacheCalls (logWarning msg err w) = bcacheCalls w"
  by (simp add: logWarning_def split: option.splits)





lemma put_errs_Cons:
  "put_errs c (p # ps) = opt_list (put_err c (fst p) (snd p)) @ put_errs c ps"
  by (simp add: put_errs_def)





lemma step_after_cancel:
  assumes "groupErr s \<noteq> None"
  shows "\<exists>new. puts (pworld (step c i s)) = puts (pworld s) @ new \<and> (\<forall>p \<in> set new. fst p)"
    and "groupErr (step c i s) \<noteq> None"
proof -
  have d: "groupCtxDone c s" using assms by (simp add: groupCtxDone_def)
  show "\<exists>new. puts (pworld (step c i s)) = puts (pworld s) @ new \<and> (\<forall>p \<in> set new. fst p)"
  proof (cases "workers s ! i")
    case (InPut bs)
    obtain e w' where p: "doOneBlockPut_err True (c_bserv c) (c_IsPublic c)
        (c_tlfID c) (c_tlfName c) bs (pworld s) = (e, w')"
      by (cases "doOneBlockPut_err True (c_bserv c) (c_IsPublic c)
        (c_tlfID c) (c_tlfName c) bs (pworld s)")
    then have "puts w' = puts (pworld s)"
      using doOneBlockPut_err_snd [of True c "c_IsPublic c" "c_tlfName c" bs "pworld s"] by simp
    with InPut p d show ?thesis
      by (auto simp: step_def Let_def split: option.splits)
  qed (simp_all add: step_def split: list.splits)
  show "groupErr (step c i s) \<noteq> None"
    using assms
    by (cases "workers s ! i") (auto simp: step_def Let_def split: list.splits prod.splits option.splits)
qed

lemma exec_after_cancel:
  assumes "groupErr s \<noteq> None"
  shows "\<exists>new. puts (pworld (exec c ks s)) = puts (pworld s) @ new \<and> (\<forall>p \<in> set new. fst p)"
  using assms
proof (induction ks arbitrary: s)
  case Nil
  then show ?case by (simp add: exec_def)
next
  case (Cons k ks)
  have "\<exists>new. puts (pworld (sched_step c s k)) = puts (pworld s) @ new \<and> (\<forall>p \<in> set new. fst p)"
    using step_after_cancel(1) [OF Cons.prems, of c k]
    by (cases "runnable c s k") (simp_all add: sched_step_def)
  then obtain new1 where 1: "puts (pworld (sched_step c s k)) = puts (pworld s) @ new1"
      "\<forall>p \<in> set new1. fst p"
    by blast
  have "groupErr (sched_step c s k) \<noteq> None"
    using step_after_cancel(2) [OF Cons.prems, of c k] Cons.prems by (simp add: sched_step_def)
  then obtain new2 where 2: "puts (pworld (exec c ks (sched_step c s k)))
      = puts (pworld (sched_step c s k)) @ new2" "\<forall>p \<in> set new2. fst p"
    using Cons.IH by blast
  have "exec c (k # ks) s = exec c ks (sched_step c s k)"
    by (simp add: exec_def)
  with 1 2 have "puts (pworld (exec c (k # ks) s)) = puts (pworld s) @ (new1 @ new2)"
    "\<forall>p \<in> set (new1 @ new2). fst p"
    by auto
  then show ?case by blast
qed

lemma count_put_sends:
  "count (mset (put_sends c ps)) fblock
     = length (filter (\<lambda>p. fblockToRemove (c_store c) (snd p) (put_err c (fst p) (snd p))
         = Some fblock) ps)"
proof (induction ps)
  case Nil
  then show ?case by (simp add: put_sends_def)
next
  case (Cons p ps)
  then show ?case
    by (cases "fblockToRemove (c_store c) (snd p) (put_err c (fst p) (snd p))")
      (simp_all add: put_sends_def)
qed

lemma size_collect_err:
  "size (collect w_err ws)
     = length (filter (\<lambda>w. \<exists>fblock e. w = Sending fblock e \<or> w = Failing e \<or> w = Returned (Some e)) ws)"
proof (induction ws)
  case Nil
  then show ?case by simp
next
  case (Cons w ws)
  then show ?case by (cases w rule: w_err.cases) simp_all
qed

lemma size_collect_failed:
  "size (collect w_failed ws) = length (filter (\<lambda>w. \<exists>e. w = Returned (Some e)) ws)"
proof (induction ws)
  case Nil
  then show ?case by simp
next
  case (Cons w ws)
  then show ?case by (cases w rule: w_failed.cases) simp_all
qed

lemma length_put_errs:
  "length (put_errs c ps) = length (filter (\<lambda>p. put_err c (fst p) (snd p) \<noteq> None) ps)"
proof (induction ps)
  case Nil
  then show ?case by simp
next
  case (Cons p ps)
  then show ?case
    by (cases "put_err c (fst p) (snd p)") (simp_all add: put_errs_Cons)
qed

lemma put_errs_empty_iff:
  "put_errs c ps = [] \<longleftrightarrow> list_all (\<lambda>p. put_err c (fst p) (snd p) = None) ps"
proof (induction ps)
  case Nil
  then show ?case by simp
next
  case (Cons p ps)
  then show ?case
    by (cases "put_err c (fst p) (snd p)") (simp_all add: put_errs_Cons)
qed

lemma failed_iff_returned:
  "collect w_failed ws \<noteq> {#} \<longleftrightarrow> (\<exists>e. Returned (Some e) \<in> set ws)"
proof
  assume "collect w_failed ws \<noteq> {#}"
  then obtain w where w: "w \<in> set ws" "w_failed w \<noteq> {#}"
    by (auto simp: collect_empty_iff)
  then obtain e where "w = Returned (Some e)"
    by (cases w rule: w_failed.cases) simp_all
  with w(1) show "\<exists>e. Returned (Some e) \<in> set ws" by blast
next
  assume "\<exists>e. Returned (Some e) \<in> set ws"
  then obtain e where "Returned (Some e) \<in> set ws" by blast
  then have "w_failed (Returned (Some e)) \<subseteq># collect w_failed ws"
    by (rule collect_mem)
  then show "collect w_failed ws \<noteq> {#}" by auto
qed

lemma removeBlocks_returns:
  "\<forall>fblock \<in> set fs. \<exists>bs \<in> set bss. block bs = fblock \<Longrightarrow>
   \<exists>r. removeBlocks bcache tlf bss fs acc w = Returns r"
proof (induction fs arbitrary: acc w)
  case Nil
  then show ?case by simp
next
  case (Cons fblock fs)
  then have "filter (\<lambda>bs. block bs = fblock) bss \<noteq> []"
    by (auto simp: filter_empty_conv)
  then have "acc @ map blockPtr (filter (\<lambda>bs. block bs = fblock) bss) \<noteq> []"
    by simp
  moreover have "\<forall>fblock \<in> set fs. \<exists>bs \<in> set bss. block bs = fblock"
    using Cons.prems by simp
  ultimately show ?case
    using Cons.IH by (simp add: Let_def)
qed

lemma fblockToRemove_block: "fblockToRemove st bs err = Some fblock \<Longrightarrow> block bs = fblock"
  by (auto simp: fblockToRemove_def split: if_splits Block.splits)

lemma inv_chan_in_batch:
  assumes "puts_inv c bss s" and "fblock \<in> set (blocksToRemoveChan s)"
  shows "\<exists>bs \<in> set bss. block bs = fblock"
proof -
  have "fblock \<in># mset (blocksToRemoveChan s)"
    using assms(2) by simp
  then have "fblock \<in># mset (put_sends c (puts (pworld s)))"
    using assms(1) unfolding puts_inv_def by (metis union_iff)
  then have "fblock \<in> set (put_sends c (puts (pworld s)))"
    by simp
  then obtain p where p: "p \<in> set (puts (pworld s))"
      "fblock \<in> set (opt_list (fblockToRemove (c_store c) (snd p) (put_err c (fst p) (snd p))))"
    by (auto simp: put_sends_def)
  then have "fblockToRemove (c_store c) (snd p) (put_err c (fst p) (snd p)) = Some fblock"
    by (cases "fblockToRemove (c_store c) (snd p) (put_err c (fst p) (snd p))") simp_all
  then have "block (snd p) = fblock"
    by (rule fblockToRemove_block)
  moreover have "snd p \<in> set bss"
    using assms(1) p(1) by (rule inv_puts_in_batch)
  ultimately show ?thesis by blast
qed

text \<open>
  C2, amended. For every batch and every schedule of the workers: a worker's error,
  recoverable or not, does cancel the batch. At every point of an execution, each put
  that has failed has taken its worker out of the loop (the worker is at the send on
  the channel, is about to return the error, or has returned it), and the group error
  is set exactly when a worker has returned an error; from then on the group context
  is done, and every put that is issued afterwards runs under the done context. Every
  entry is processed at most once. Every execution ends with all workers returned; the
  group error is then set exactly when some put has failed, \<^verbatim>\<open>doBlockPuts\<close> returns the
  group error, and \<^verbatim>\<open>blocksToRemoveChan\<close> holds each block as many times as a put of
  an entry with this block, a \<^verbatim>\<open>*FileBlock\<close> that is not indirect, has ended with a
  recoverable error: every such block has been pushed onto the channel.
\<close>

theorem recoverable_error_cancels:
  assumes "c = worker_closure ctxDone bserv IsPublic st maxParallelBlockPuts tlf tlfName bps"
    and "s0 = started maxParallelBlockPuts bps world0"
    and "s1 = exec c ks s0" and "s2 = exec c (ks @ ks') s0" and "sf = run c sched s0"
    and "failed = (\<lambda>p. fst (doOneBlockPut_err (fst p) bserv IsPublic tlf tlfName (snd p) world0)
           \<noteq> None)"
  shows "length (filter (\<lambda>w. \<exists>fblock e. w = Sending fblock e \<or> w = Failing e
             \<or> w = Returned (Some e)) (workers s1))
           = length (filter failed (puts (pworld s1)))
       \<and> ((groupErr s1 \<noteq> None) = (\<exists>e. Returned (Some e) \<in> set (workers s1)))
       \<and> (groupErr s1 \<noteq> None \<longrightarrow>
            groupCtxDone c s1
            \<and> (\<forall>p \<in> set (drop (length (puts (pworld s1))) (puts (pworld s2))). fst p))
       \<and> mset (map snd (puts (pworld s1))) \<subseteq># mset (blockStates bps)
       \<and> list_all has_returned (workers sf)
       \<and> length (filter (\<lambda>w. \<exists>e. w = Returned (Some e)) (workers sf))
           = length (filter failed (puts (pworld sf)))
       \<and> ((groupErr sf \<noteq> None) = (\<exists>p \<in> set (puts (pworld sf)). failed p))
       \<and> (\<exists>ptrs w'.
            doBlockPuts ctxDone bserv bcache IsPublic st maxParallelBlockPuts tlf tlfName sched
              bps world0 = Result ptrs (groupErr sf) w')
       \<and> count (mset (blocksToRemoveChan sf)) fblock
           = length (filter
               (\<lambda>p. fblockToRemove st (snd p)
                      (fst (doOneBlockPut_err (fst p) bserv IsPublic tlf tlfName (snd p) world0))
                    = Some fblock)
               (puts (pworld sf)))"
proof -
  have c: "c_bserv c = bserv" "c_tlfID c = tlf" "c_store c = st" "c_IsPublic c = IsPublic"
    "c_tlfName c = tlfName"
    by (simp_all add: assms(1) worker_closure_def)
  have pe: "put_err c d bs = fst (doOneBlockPut_err d bserv IsPublic tlf tlfName bs world0)"
    for d bs
    using doOneBlockPut_err_fst [of d c IsPublic tlfName bs world0] by (simp add: c)
  have fl: "failed = (\<lambda>p. put_err c (fst p) (snd p) \<noteq> None)"
    by (simp add: assms(6) pe)
  have inv0: "puts_inv c (blockStates bps) s0"
    unfolding assms(1,2) by (rule inv_started)
  have inv1: "puts_inv c (blockStates bps) s1"
    unfolding assms(3) using inv0 by (rule exec_inv)
  have invf: "puts_inv c (blockStates bps) sf"
    unfolding assms(5) using inv0 by (rule run_inv)
  have app: "s2 = exec c ks' s1"
    by (simp add: exec_def assms(3,4))
  have a: "length (filter (\<lambda>w. \<exists>fblock e. w = Sending fblock e \<or> w = Failing e
             \<or> w = Returned (Some e)) (workers s1))
           = length (filter failed (puts (pworld s1)))"
  proof -
    have "size (collect w_err (workers s1)) = size (mset (put_errs c (puts (pworld s1))))"
      using inv1 by (simp add: puts_inv_def)
    then show ?thesis
      by (simp add: size_collect_err length_put_errs fl)
  qed
  have b: "(groupErr s1 \<noteq> None) = (\<exists>e. Returned (Some e) \<in> set (workers s1))"
    using inv1 failed_iff_returned [of "workers s1"] by (simp add: puts_inv_def)
  have d: "groupCtxDone c s1
      \<and> (\<forall>p \<in> set (drop (length (puts (pworld s1))) (puts (pworld s2))). fst p)"
    if g: "groupErr s1 \<noteq> None"
  proof -
    obtain new where "puts (pworld (exec c ks' s1)) = puts (pworld s1) @ new"
        "\<forall>p \<in> set new. fst p"
      using exec_after_cancel [OF g] by blast
    with g app show ?thesis by (simp add: groupCtxDone_def)
  qed
  have e: "mset (map snd (puts (pworld s1))) \<subseteq># mset (blockStates bps)"
    using inv1 unfolding puts_inv_def
    by (metis mset_subset_eq_add_left subset_mset.add_increasing2 subset_mset.order_refl
        union_assoc)
  have ret: "list_all has_returned (workers sf)"
    using invf run_final [of c sched s0] unfolding assms(5) by (rule inv_final_returned)
  have werr: "collect w_failed (workers sf) = mset (put_errs c (puts (pworld sf)))"
    using invf returned_collect(3) [OF ret] by (simp add: puts_inv_def)
  have f: "length (filter (\<lambda>w. \<exists>e. w = Returned (Some e)) (workers sf))
           = length (filter failed (puts (pworld sf)))"
  proof -
    have "size (collect w_failed (workers sf)) = size (mset (put_errs c (puts (pworld sf))))"
      using werr by simp
    then show ?thesis
      by (simp add: size_collect_failed length_put_errs fl)
  qed
  have g: "(groupErr sf \<noteq> None) = (\<exists>p \<in> set (puts (pworld sf)). failed p)"
  proof -
    have "(groupErr sf = None) = (put_errs c (puts (pworld sf)) = [])"
      using invf werr by (simp add: puts_inv_def)
    then show ?thesis
      by (auto simp: put_errs_empty_iff fl list_all_iff)
  qed
  have h: "\<exists>ptrs w'. doBlockPuts ctxDone bserv bcache IsPublic st maxParallelBlockPuts tlf
      tlfName sched bps world0 = Result ptrs (groupErr sf) w'"
  proof -
    have "\<forall>fblock \<in> set (blocksToRemoveChan sf). \<exists>bs \<in> set (blockStates bps). block bs = fblock"
      using inv_chan_in_batch [OF invf] by blast
    then obtain r where "removeBlocks bcache tlf (blockStates bps) (blocksToRemoveChan sf) []
        (pworld sf) = Returns r"
      using removeBlocks_returns by blast
    with ret show ?thesis
      by (cases r) (simp add: doBlockPuts_def Let_def assms(1,2,5))
  qed
  have "mset (blocksToRemoveChan sf) = mset (put_sends c (puts (pworld sf)))"
    using invf returned_collect(2) [OF ret] by (simp add: puts_inv_def)
  then have "count (mset (blocksToRemoveChan sf)) fblock
      = length (filter (\<lambda>p. fblockToRemove (c_store c) (snd p) (put_err c (fst p) (snd p))
         = Some fblock) (puts (pworld sf)))"
    by (simp only: count_put_sends)
  then have k: "count (mset (blocksToRemoveChan sf)) fblock
      = length (filter (\<lambda>p. fblockToRemove st (snd p)
           (fst (doOneBlockPut_err (fst p) bserv IsPublic tlf tlfName (snd p) world0))
         = Some fblock) (puts (pworld sf)))"
    by (simp add: c pe)
  from a b d e ret f g h k show ?thesis
    by blast
qed

theorem recoverable_error_cancels_witness:
  "workers (exec (worker_closure False bserv_ctx (\<lambda>t. False) store0 100 [] ''alice''
          \<lparr>blockStates = [bs_A, bs_B]\<rparr>) [0, 0, 0, 0]
          (started 100 \<lparr>blockStates = [bs_A, bs_B]\<rparr> world0))
     = [Returned (Some (BServerErrorBlockDeleted ''deleted'')), AtLoopHead]
   \<and> groupErr (exec (worker_closure False bserv_ctx (\<lambda>t. False) store0 100 [] ''alice''
          \<lparr>blockStates = [bs_A, bs_B]\<rparr>) [0, 0, 0, 0]
          (started 100 \<lparr>blockStates = [bs_A, bs_B]\<rparr> world0)) \<noteq> None
   \<and> groupCtxDone (worker_closure False bserv_ctx (\<lambda>t. False) store0 100 [] ''alice''
          \<lparr>blockStates = [bs_A, bs_B]\<rparr>)
       (exec (worker_closure False bserv_ctx (\<lambda>t. False) store0 100 [] ''alice''
          \<lparr>blockStates = [bs_A, bs_B]\<rparr>) [0, 0, 0, 0]
          (started 100 \<lparr>blockStates = [bs_A, bs_B]\<rparr> world0))
   \<and> puts (pworld (exec (worker_closure False bserv_ctx (\<lambda>t. False) store0 100 [] ''alice''
          \<lparr>blockStates = [bs_A, bs_B]\<rparr>) ([0, 0, 0, 0] @ [1, 1])
          (started 100 \<lparr>blockStates = [bs_A, bs_B]\<rparr> world0)))
       = [(False, bs_A), (True, bs_B)]
   \<and> list_all has_returned (workers
        (run (worker_closure False bserv_ctx (\<lambda>t. False) store0 100 [] ''alice''
           \<lparr>blockStates = [bs_A, bs_B]\<rparr>) [] (started 100 \<lparr>blockStates = [bs_A, bs_B]\<rparr> world0)))
   \<and> (\<exists>ptrs w'. doBlockPuts False bserv_ctx bcache_ok (\<lambda>t. False) store0 100 [] ''alice'' []
          \<lparr>blockStates = [bs_A, bs_B]\<rparr> world0
        = Result ptrs (groupErr
            (run (worker_closure False bserv_ctx (\<lambda>t. False) store0 100 [] ''alice''
              \<lparr>blockStates = [bs_A, bs_B]\<rparr>) []
              (started 100 \<lparr>blockStates = [bs_A, bs_B]\<rparr> world0))) w')
   \<and> count (mset (blocksToRemoveChan
        (run (worker_closure False bserv_ctx (\<lambda>t. False) store0 100 [] ''alice''
           \<lparr>blockStates = [bs_A, bs_B]\<rparr>) [] (started 100 \<lparr>blockStates = [bs_A, bs_B]\<rparr> world0))))
        (FileBlockPtr 1) = 1"
proof -
  let ?c = "worker_closure False bserv_ctx (\<lambda>t. False) store0 100 [] ''alice''
          \<lparr>blockStates = [bs_A, bs_B]\<rparr>"
  let ?s0 = "started 100 \<lparr>blockStates = [bs_A, bs_B]\<rparr> world0"
  have w: "workers (exec ?c [0, 0, 0, 0] ?s0)
      = [Returned (Some (BServerErrorBlockDeleted ''deleted'')), AtLoopHead]"
    by (simp add: exec_def sched_step_def eval_defs Let_def)
  have p: "puts (pworld (exec ?c ([0, 0, 0, 0] @ [1, 1]) ?s0)) = [(False, bs_A), (True, bs_B)]"
    by (simp add: exec_def sched_step_def eval_defs Let_def)
  have r: "puts (pworld (run ?c [] ?s0)) = [(False, bs_A), (True, bs_B)]"
    by (simp add: eval_defs run.simps Let_def)
  have f: "length (filter
          (\<lambda>p. fblockToRemove store0 (snd p)
                 (fst (doOneBlockPut_err (fst p) bserv_ctx (\<lambda>t. False) [] ''alice'' (snd p) world0))
               = Some (FileBlockPtr 1))
          [(False, bs_A), (True, bs_B)]) = 1"
    by (simp add: eval_defs)
  note T = recoverable_error_cancels [where ctxDone = False and bserv = bserv_ctx
      and IsPublic = "\<lambda>t. False" and st = store0 and maxParallelBlockPuts = 100 and tlf = "[]"
      and tlfName = "''alice''" and bps = "\<lparr>blockStates = [bs_A, bs_B]\<rparr>"
      and ks = "[0, 0, 0, 0]" and ks' = "[1, 1]" and sched = "[]" and fblock = "FileBlockPtr 1"
      and bcache = bcache_ok, OF refl refl refl refl refl refl]
  have "\<exists>e. Returned (Some e) \<in> set (workers (exec ?c [0, 0, 0, 0] ?s0))"
    by (simp add: w)
  then have g: "groupErr (exec ?c [0, 0, 0, 0] ?s0) \<noteq> None"
    using T [THEN conjunct2, THEN conjunct1] by (rule rev_iffD2)
  have d: "groupCtxDone ?c (exec ?c [0, 0, 0, 0] ?s0)"
    using T [THEN conjunct2, THEN conjunct2, THEN conjunct1] g by (rule conjunct1 [OF mp])
  have e: "list_all has_returned (workers (run ?c [] ?s0))"
    by (rule T [THEN conjunct2, THEN conjunct2, THEN conjunct2, THEN conjunct2, THEN conjunct1])
  have h: "\<exists>ptrs w'. doBlockPuts False bserv_ctx bcache_ok (\<lambda>t. False) store0 100 [] ''alice'' []
      \<lparr>blockStates = [bs_A, bs_B]\<rparr> world0 = Result ptrs (groupErr (run ?c [] ?s0)) w'"
    by (rule T [THEN conjunct2, THEN conjunct2, THEN conjunct2, THEN conjunct2, THEN conjunct2,
          THEN conjunct2, THEN conjunct2, THEN conjunct1])
  have k: "count (mset (blocksToRemoveChan (run ?c [] ?s0))) (FileBlockPtr 1) = 1"
    using T [THEN conjunct2, THEN conjunct2, THEN conjunct2, THEN conjunct2, THEN conjunct2,
          THEN conjunct2, THEN conjunct2, THEN conjunct2]
    by (simp only: r f)
  from w g d p e h k show ?thesis
    by (intro conjI)
qed

text \<open>
  The claim as stated fails on a batch of two entries, behind a block server that
  honours the context: the put of the first entry fails with a recoverable error,
  which cancels the group context, and the put of the second entry, issued afterwards,
  is aborted with the cancellation error; its callback is never called.
\<close>

theorem recoverable_error_cancels_counterexample:
  "doBlockPuts False bserv_ctx bcache_ok (\<lambda>t. False) store0 100 [] ''alice'' []
     \<lparr>blockStates = [bs_A, bs_B]\<rparr> world0
   = Result [ptr_new] (Some (BServerErrorBlockDeleted ''deleted''))
       \<lparr>bservCalls = [PutCall [] [1] (Context ptr_new) [1, 2, 3] [9],
                      PutCall [] [2] (Context ptr_new) [1, 2, 3] [9]],
        reports = [], synced = [],
        bcacheCalls = [DeleteKnownPtrCall [] (FileBlockPtr 1), DeleteTransientCall ptr_new []],
        warnings = [], puts = [(False, bs_A), (True, bs_B)]\<rparr>
   \<and> fst (putBlockToServer True bserv_ctx [] (blockPtr bs_B) (readyBlockData bs_B) world0)
       = Some ContextCanceled"
  by (simp add: eval_defs run.simps Let_def)

end
